theory Spec2Isabelle
  imports Complex_Main
begin

section \<open>Data model of the thumbnail composition engine\<close>

text \<open>
  The development embeds \<^verbatim>\<open>src/components/optimizer/CanvasWorkspace.tsx\<close> together with
  the \<^verbatim>\<open>TextObject\<close> and \<^verbatim>\<open>CanvasTemplate\<close> interfaces it imports.

  JavaScript strings are sequences of UTF-16 code units; a code unit is a natural number
  here. \<open>js\<close> embeds an ASCII literal. JavaScript numbers are idealised as reals.
\<close>

type_synonym jsstring = "nat list"

definition js :: "string \<Rightarrow> jsstring" where
  "js s = map of_char s"

datatype align = AlignLeft | AlignCenter | AlignRight

text \<open>
  \<^verbatim>\<open>interface TextObject\<close>. The fields \<^verbatim>\<open>id\<close>, \<^verbatim>\<open>text\<close>, \<^verbatim>\<open>x\<close>, \<^verbatim>\<open>y\<close> carry the suffix
  \<open>_t\<close>. The optional fields \<^verbatim>\<open>isLocked?\<close>, \<^verbatim>\<open>isHidden?\<close>, \<^verbatim>\<open>zIndex?\<close> are options
  (\<open>None\<close> is \<^verbatim>\<open>undefined\<close>); so is \<^verbatim>\<open>isDragging\<close>, which the cast
  \<^verbatim>\<open>as TextObject\<close> in \<^verbatim>\<open>handleApplyTemplate\<close> can leave undefined.
\<close>

record TextObject =
  id_t :: jsstring
  text_t :: jsstring
  x_t :: real
  y_t :: real
  fontSize :: real
  fontFamily :: jsstring
  color :: jsstring
  strokeColor :: jsstring
  strokeWidth :: real
  shadowColor :: jsstring
  shadowBlur :: real
  highlightWords :: "jsstring list"
  highlightColor :: jsstring
  highlightScale :: real
  lineHeight :: real
  opacity :: real
  rotation :: real
  align :: align
  isDragging :: "bool option"
  isLocked :: "bool option"
  isHidden :: "bool option"
  zIndex :: "real option"

text \<open>Truthiness of an optional boolean: \<^verbatim>\<open>undefined\<close> and \<^verbatim>\<open>false\<close> are falsy.\<close>

fun truthy :: "bool option \<Rightarrow> bool" where
  "truthy None = False"
| "truthy (Some b) = b"

text \<open>
  The state the component works on: \<^verbatim>\<open>textObjects\<close> and \<^verbatim>\<open>selectedTextId\<close> are owned by
  the parent (\<^verbatim>\<open>setTextObjects\<close>, \<^verbatim>\<open>onSelectText\<close> write them), the others are the
  component's own \<^verbatim>\<open>useState\<close> cells. \<^verbatim>\<open>snapLines\<close> is \<^verbatim>\<open>{ x?: number, y?: number }\<close>.
  Every handler runs on the values of the latest render and returns the state after
  its updates have been applied.
\<close>

record state =
  textObjects :: "TextObject list"
  selectedTextId :: jsstring
  history :: "TextObject list list"
  future :: "TextObject list list"
  dragOffset :: "real \<times> real"
  snapLines :: "real option \<times> real option"
  showTemplates :: bool
  isFullScreen :: bool

section \<open>History\<close>

text \<open>
  \<^verbatim>\<open>JSON.parse(JSON.stringify(textObjects))\<close>: a structural copy. On values it is the
  identity: an absent optional field stays absent, finite numbers and strings survive
  the round trip.
\<close>

definition deep_copy :: "TextObject list \<Rightarrow> TextObject list" where
  "deep_copy objs = objs"

text \<open>\<^verbatim>\<open>arr.slice(-n)\<close>: the last \<open>n\<close> elements, the whole array when it is shorter.\<close>

definition slice_last :: "nat \<Rightarrow> 'a list \<Rightarrow> 'a list" where
  "slice_last n xs = drop (length xs - n) xs"

definition pushHistory :: "state \<Rightarrow> state" where
  "pushHistory st =
     st\<lparr>history := slice_last 20 (history st @ [deep_copy (textObjects st)]),
        future := []\<rparr>"

definition handleUndo :: "state \<Rightarrow> state" where
  "handleUndo st =
     (if length (history st) = 0 then st
      else let previous = history st ! (length (history st) - 1)
           in st\<lparr>future := textObjects st # future st,
                 textObjects := previous,
                 history := take (length (history st) - 1) (history st)\<rparr>)"

definition handleRedo :: "state \<Rightarrow> state" where
  "handleRedo st =
     (if length (future st) = 0 then st
      else let next = future st ! 0
           in st\<lparr>history := history st @ [textObjects st],
                 textObjects := next,
                 future := drop 1 (future st)\<rparr>)"


section \<open>Property updates\<close>

text \<open>
  \<^verbatim>\<open>{ ...t, [key]: value }\<close> with \<^verbatim>\<open>key: keyof TextObject\<close>: one constructor for each
  key, carrying a value of the field's type.
\<close>

datatype assignment =
    SetId jsstring
  | SetText jsstring
  | SetX real
  | SetY real
  | SetFontSize real
  | SetFontFamily jsstring
  | SetColor jsstring
  | SetStrokeColor jsstring
  | SetStrokeWidth real
  | SetShadowColor jsstring
  | SetShadowBlur real
  | SetHighlightWords "jsstring list"
  | SetHighlightColor jsstring
  | SetHighlightScale real
  | SetLineHeight real
  | SetOpacity real
  | SetRotation real
  | SetAlign align
  | SetIsDragging "bool option"
  | SetIsLocked "bool option"
  | SetIsHidden "bool option"
  | SetZIndex "real option"

fun assign :: "assignment \<Rightarrow> TextObject \<Rightarrow> TextObject" where
  "assign (SetId v) t = t\<lparr>id_t := v\<rparr>"
| "assign (SetText v) t = t\<lparr>text_t := v\<rparr>"
| "assign (SetX v) t = t\<lparr>x_t := v\<rparr>"
| "assign (SetY v) t = t\<lparr>y_t := v\<rparr>"
| "assign (SetFontSize v) t = t\<lparr>fontSize := v\<rparr>"
| "assign (SetFontFamily v) t = t\<lparr>fontFamily := v\<rparr>"
| "assign (SetColor v) t = t\<lparr>color := v\<rparr>"
| "assign (SetStrokeColor v) t = t\<lparr>strokeColor := v\<rparr>"
| "assign (SetStrokeWidth v) t = t\<lparr>strokeWidth := v\<rparr>"
| "assign (SetShadowColor v) t = t\<lparr>shadowColor := v\<rparr>"
| "assign (SetShadowBlur v) t = t\<lparr>shadowBlur := v\<rparr>"
| "assign (SetHighlightWords v) t = t\<lparr>highlightWords := v\<rparr>"
| "assign (SetHighlightColor v) t = t\<lparr>highlightColor := v\<rparr>"
| "assign (SetHighlightScale v) t = t\<lparr>highlightScale := v\<rparr>"
| "assign (SetLineHeight v) t = t\<lparr>lineHeight := v\<rparr>"
| "assign (SetOpacity v) t = t\<lparr>opacity := v\<rparr>"
| "assign (SetRotation v) t = t\<lparr>rotation := v\<rparr>"
| "assign (SetAlign v) t = t\<lparr>align := v\<rparr>"
| "assign (SetIsDragging v) t = t\<lparr>isDragging := v\<rparr>"
| "assign (SetIsLocked v) t = t\<lparr>isLocked := v\<rparr>"
| "assign (SetIsHidden v) t = t\<lparr>isHidden := v\<rparr>"
| "assign (SetZIndex v) t = t\<lparr>zIndex := v\<rparr>"

text \<open>\<^verbatim>\<open>updateObject(id, key, value, recordHistory = true)\<close>.\<close>

definition updateObject :: "jsstring \<Rightarrow> assignment \<Rightarrow> bool \<Rightarrow> state \<Rightarrow> state" where
  "updateObject i kv recordHistory st =
     (let st1 = (if recordHistory then pushHistory st else st)
      in st1\<lparr>textObjects :=
               map (\<lambda>t. if id_t t = i then assign kv t else t) (textObjects st1)\<rparr>)"

text \<open>
  \<^verbatim>\<open>handleUpdateTextProps\<close>: the parent's \<^verbatim>\<open>onUpdateText\<close>, when the parent passes one,
  replaces the component's own recorded update.
\<close>

definition handleUpdateTextProps ::
  "(assignment \<Rightarrow> state \<Rightarrow> state) option \<Rightarrow> assignment \<Rightarrow> state \<Rightarrow> state" where
  "handleUpdateTextProps parentOnUpdateText kv st =
     (if selectedTextId st = [] then st
      else case parentOnUpdateText of
             Some f \<Rightarrow> f kv st
           | None \<Rightarrow> updateObject (selectedTextId st) kv True st)"

section \<open>Keyboard shortcuts\<close>

record key_event =
  key :: jsstring
  ctrlKey :: bool
  metaKey :: bool
  shiftKey :: bool
  targetIsInput :: bool

text \<open>
  \<^verbatim>\<open>e.key.toLowerCase()\<close>, on the letters A to Z. The handler only compares the result
  with \<^verbatim>\<open>'z'\<close> and \<^verbatim>\<open>'y'\<close>, and no code unit outside A to Z is mapped to one of these.
\<close>

definition toLowerCase :: "jsstring \<Rightarrow> jsstring" where
  "toLowerCase s = map (\<lambda>c. if 65 \<le> c \<and> c \<le> 90 then c + 32 else c) s"

definition handleKeyDown :: "key_event \<Rightarrow> state \<Rightarrow> state" where
  "handleKeyDown e st =
     (if targetIsInput e then st
      else if (ctrlKey e \<or> metaKey e) \<and> toLowerCase (key e) = js ''z'' then handleUndo st
      else if (ctrlKey e \<or> metaKey e) \<and> toLowerCase (key e) = js ''y'' then handleRedo st
      else if key e = js ''Escape''
        then st\<lparr>isFullScreen := False, selectedTextId := []\<rparr>
      else if selectedTextId st \<noteq> [] then
        (case find (\<lambda>t. id_t t = selectedTextId st) (textObjects st) of
           None \<Rightarrow> st
         | Some activeObj \<Rightarrow>
             let moveAmount = (if shiftKey e then 10 else 1);
                 st1 = (if key e = js ''ArrowUp''
                        then updateObject (selectedTextId st) (SetY (y_t activeObj - moveAmount)) False st
                        else st);
                 st2 = (if key e = js ''ArrowDown''
                        then updateObject (selectedTextId st) (SetY (y_t activeObj + moveAmount)) False st1
                        else st1);
                 st3 = (if key e = js ''ArrowLeft''
                        then updateObject (selectedTextId st) (SetX (x_t activeObj - moveAmount)) False st2
                        else st2);
                 st4 = (if key e = js ''ArrowRight''
                        then updateObject (selectedTextId st) (SetX (x_t activeObj + moveAmount)) False st3
                        else st3)
             in if key e = js ''Delete'' \<or> key e = js ''Backspace''
                then (pushHistory st4)
                       \<lparr>textObjects := filter (\<lambda>t. id_t t \<noteq> selectedTextId st) (textObjects st4),
                        selectedTextId := []\<rparr>
                else st4)
      else st)"

section \<open>Templates and new layers\<close>

text \<open>
  \<^verbatim>\<open>Partial<TextObject>\<close>: every field may be absent. \<^verbatim>\<open>CanvasTemplate\<close> with its
  optional \<^verbatim>\<open>isCustom\<close>.
\<close>

record PartialTextObject =
  p_id :: "jsstring option"
  p_text :: "jsstring option"
  p_x :: "real option"
  p_y :: "real option"
  p_fontSize :: "real option"
  p_fontFamily :: "jsstring option"
  p_color :: "jsstring option"
  p_strokeColor :: "jsstring option"
  p_strokeWidth :: "real option"
  p_shadowColor :: "jsstring option"
  p_shadowBlur :: "real option"
  p_highlightWords :: "jsstring list option"
  p_highlightColor :: "jsstring option"
  p_highlightScale :: "real option"
  p_lineHeight :: "real option"
  p_opacity :: "real option"
  p_rotation :: "real option"
  p_align :: "align option"
  p_isDragging :: "bool option"
  p_isLocked :: "bool option"
  p_isHidden :: "bool option"
  p_zIndex :: "real option"

record CanvasTemplate =
  tpl_id :: jsstring
  tpl_name :: jsstring
  previewColor :: jsstring
  objects :: "PartialTextObject list"
  isCustom :: "bool option"

text \<open>
  \<^verbatim>\<open>v || d\<close>: the default replaces an absent value and a falsy one (the number 0, the
  empty string); an array is never falsy.
\<close>

fun or_num :: "real option \<Rightarrow> real \<Rightarrow> real" where
  "or_num None d = d"
| "or_num (Some v) d = (if v = 0 then d else v)"

fun or_str :: "jsstring option \<Rightarrow> jsstring \<Rightarrow> jsstring" where
  "or_str None d = d"
| "or_str (Some v) d = (if v = [] then d else v)"

fun or_list :: "'a list option \<Rightarrow> 'a list \<Rightarrow> 'a list" where
  "or_list None d = d"
| "or_list (Some v) d = v"

text \<open>The decimal digits of a natural number, as a template literal prints it.\<close>

fun show_num :: "nat \<Rightarrow> jsstring" where
  "show_num n = (if n < 10 then [48 + n] else show_num (n div 10) @ [48 + n mod 10])"

declare show_num.simps [simp del]

text \<open>The placeholder text of a template layer: U+0646 U+0635.\<close>

definition placeholder_text :: jsstring where
  "placeholder_text = [0x646, 0x635]"

text \<open>
  The object built by the callback of \<^verbatim>\<open>tpl.objects.map((obj, i) => ...)\<close>: the spread
  \<^verbatim>\<open>...obj\<close> comes first, so every key written after it overrides the template's
  value; only \<^verbatim>\<open>isDragging\<close> and \<^verbatim>\<open>zIndex\<close> are left as the spread gives them.
  \<open>now\<close> is the value of \<^verbatim>\<open>Date.now()\<close>.
\<close>

definition template_object :: "nat \<Rightarrow> nat \<Rightarrow> PartialTextObject \<Rightarrow> TextObject" where
  "template_object now i obj =
     \<lparr>id_t = js ''t_'' @ show_num now @ js ''_'' @ show_num i,
      text_t = or_str (p_text obj) placeholder_text,
      x_t = or_num (p_x obj) 640,
      y_t = or_num (p_y obj) 360,
      fontSize = or_num (p_fontSize obj) 60,
      fontFamily = js ''Cairo'',
      color = or_str (p_color obj) (js ''#fff''),
      strokeColor = or_str (p_strokeColor obj) (js ''#000''),
      strokeWidth = or_num (p_strokeWidth obj) 2,
      shadowColor = js ''rgba(0,0,0,0.8)'',
      shadowBlur = 10,
      highlightWords = or_list (p_highlightWords obj) [],
      highlightColor = or_str (p_highlightColor obj) (js ''#fbbf24''),
      highlightScale = or_num (p_highlightScale obj) (11 / 10),
      lineHeight = 12 / 10,
      opacity = 1,
      rotation = or_num (p_rotation obj) 0,
      align = AlignCenter,
      isDragging = p_isDragging obj,
      isLocked = Some False,
      isHidden = Some False,
      zIndex = p_zIndex obj\<rparr>"

text \<open>
  \<^verbatim>\<open>handleApplyTemplate\<close>. \<open>confirmed\<close> is the answer of \<^verbatim>\<open>window.confirm\<close>. The
  callback reads \<^verbatim>\<open>Date.now()\<close> once for each definition: \<open>now i\<close> is the reading for the
  definition at index \<open>i\<close>.
\<close>

definition handleApplyTemplate ::
  "bool \<Rightarrow> (nat \<Rightarrow> nat) \<Rightarrow> CanvasTemplate \<Rightarrow> state \<Rightarrow> state" where
  "handleApplyTemplate confirmed now tpl st =
     (if confirmed then
        let st1 = pushHistory st;
            newObjs = map (\<lambda>(i, obj). template_object (now i) i obj) (enumerate 0 (objects tpl));
            st2 = st1\<lparr>textObjects := newObjs\<rparr>
        in if length newObjs > 0 then st2\<lparr>selectedTextId := id_t (newObjs ! 0)\<rparr> else st2
      else st)"

text \<open>
  \<^verbatim>\<open>handleAddTextLayer\<close>: the parent's \<^verbatim>\<open>onAddTextLayer\<close>, when the parent passes one,
  runs instead and nothing is recorded.
\<close>

definition newObj :: "nat \<Rightarrow> jsstring \<Rightarrow> nat \<Rightarrow> TextObject" where
  "newObj now txt n =
     \<lparr>id_t = js ''t'' @ show_num now, text_t = txt, x_t = 640, y_t = 360, fontSize = 100,
      fontFamily = js ''Cairo'', color = js ''#ffffff'', strokeColor = js ''#000000'',
      strokeWidth = 4, shadowColor = js ''rgba(0,0,0,0.8)'', shadowBlur = 10,
      highlightWords = [], highlightColor = js ''#fbbf24'', highlightScale = 1,
      lineHeight = 12 / 10, opacity = 1, rotation = 0, align = AlignCenter,
      isDragging = Some False, isLocked = Some False, isHidden = Some False,
      zIndex = Some (real n + 1)\<rparr>"

definition handleAddTextLayer ::
  "(jsstring \<Rightarrow> state \<Rightarrow> state) option \<Rightarrow> nat \<Rightarrow> jsstring \<Rightarrow> state \<Rightarrow> state" where
  "handleAddTextLayer parentOnAddTextLayer now txt st =
     (case parentOnAddTextLayer of
        Some f \<Rightarrow> f txt st
      | None \<Rightarrow>
          let st1 = pushHistory st;
              obj = newObj now txt (length (textObjects st))
          in st1\<lparr>textObjects := textObjects st1 @ [obj], selectedTextId := id_t obj\<rparr>)"


section \<open>Canvas interaction\<close>

text \<open>
  The pointer handlers start from the logical coordinates \<^verbatim>\<open>mouseX\<close>, \<^verbatim>\<open>mouseY\<close> that
  they compute from the event and the canvas rectangle; \<open>None\<close> stands for an absent
  canvas (\<^verbatim>\<open>canvasRef.current\<close> is null), on which a handler returns at once.

  The loop of \<^verbatim>\<open>handleMouseDown\<close>: \<open>hit_loop objs mouseX mouseY n\<close> visits the indices
  \<open>n - 1\<close> down to \<open>0\<close> and returns the first object that is neither hidden nor locked
  and whose anchor is less than 150 away from the pointer.
\<close>

fun hit_loop :: "TextObject list \<Rightarrow> real \<Rightarrow> real \<Rightarrow> nat \<Rightarrow> TextObject option" where
  "hit_loop objs mouseX mouseY 0 = None"
| "hit_loop objs mouseX mouseY (Suc i) =
     (let obj = objs ! i
      in if truthy (isHidden obj) \<or> truthy (isLocked obj) then hit_loop objs mouseX mouseY i
         else let dist = sqrt ((mouseX - x_t obj) ^ 2 + (mouseY - y_t obj) ^ 2)
              in if dist < 150 then Some obj else hit_loop objs mouseX mouseY i)"

definition handleMouseDown :: "(real \<times> real) option \<Rightarrow> state \<Rightarrow> state" where
  "handleMouseDown canvas st =
     (case canvas of
        None \<Rightarrow> st
      | Some (mouseX, mouseY) \<Rightarrow>
          (case hit_loop (textObjects st) mouseX mouseY (length (textObjects st)) of
             Some obj \<Rightarrow>
               let st1 = pushHistory st
               in st1\<lparr>selectedTextId := id_t obj,
                      textObjects :=
                        map (\<lambda>t. if id_t t = id_t obj then t\<lparr>isDragging := Some True\<rparr> else t)
                          (textObjects st1),
                      dragOffset := (mouseX - x_t obj, mouseY - y_t obj)\<rparr>
           | None \<Rightarrow> st\<lparr>selectedTextId := []\<rparr>))"

definition handleMouseMove :: "(real \<times> real) option \<Rightarrow> state \<Rightarrow> state" where
  "handleMouseMove canvas st =
     (case find (\<lambda>t. id_t t = selectedTextId st) (textObjects st) of
        None \<Rightarrow> st
      | Some activeObj \<Rightarrow>
          if \<not> truthy (isDragging activeObj) \<or> truthy (isLocked activeObj) then st
          else case canvas of
            None \<Rightarrow> st
          | Some (mouseX, mouseY) \<Rightarrow>
              let newX = mouseX - fst (dragOffset st);
                  newY = mouseY - snd (dragOffset st);
                  centerX = 1280 / 2;
                  centerY = 720 / 2;
                  SNAP_THRESHOLD = 15;
                  (newX, snappedX) =
                     (if \<bar>newX - centerX\<bar> < SNAP_THRESHOLD then (centerX, Some centerX)
                      else (newX, None));
                  (newY, snappedY) =
                     (if \<bar>newY - centerY\<bar> < SNAP_THRESHOLD then (centerY, Some centerY)
                      else (newY, None))
              in st\<lparr>snapLines := (snappedX, snappedY),
                    textObjects :=
                      map (\<lambda>t. if id_t t = selectedTextId st then t\<lparr>x_t := newX, y_t := newY\<rparr> else t)
                        (textObjects st)\<rparr>)"

definition handleMouseUp :: "state \<Rightarrow> state" where
  "handleMouseUp st =
     st\<lparr>textObjects := map (\<lambda>t. t\<lparr>isDragging := Some False\<rparr>) (textObjects st),
        snapLines := (None, None)\<rparr>"

section \<open>Layer panel callbacks\<close>

text \<open>The callbacks the component hands to \<^verbatim>\<open>LayerPanel\<close>.\<close>

definition onSelect :: "jsstring \<Rightarrow> state \<Rightarrow> state" where
  "onSelect i st = st\<lparr>selectedTextId := i\<rparr>"

definition onToggleHidden :: "jsstring \<Rightarrow> state \<Rightarrow> state" where
  "onToggleHidden i st =
     (let st1 = pushHistory st
      in st1\<lparr>textObjects :=
               map (\<lambda>t. if id_t t = i then t\<lparr>isHidden := Some (\<not> truthy (isHidden t))\<rparr> else t)
                 (textObjects st1)\<rparr>)"

definition onToggleLock :: "jsstring \<Rightarrow> state \<Rightarrow> state" where
  "onToggleLock i st =
     (let st1 = pushHistory st
      in st1\<lparr>textObjects :=
               map (\<lambda>t. if id_t t = i then t\<lparr>isLocked := Some (\<not> truthy (isLocked t))\<rparr> else t)
                 (textObjects st1)\<rparr>)"

definition onDelete :: "jsstring \<Rightarrow> state \<Rightarrow> state" where
  "onDelete i st =
     (let st1 = pushHistory st
      in st1\<lparr>textObjects := filter (\<lambda>t. id_t t \<noteq> i) (textObjects st1),
             selectedTextId := []\<rparr>)"

text \<open>\<^verbatim>\<open>arr.findIndex(p)\<close>: the first index whose element satisfies \<open>p\<close>; \<open>None\<close> is -1.\<close>

fun findIndex :: "('a \<Rightarrow> bool) \<Rightarrow> 'a list \<Rightarrow> nat option" where
  "findIndex p [] = None"
| "findIndex p (x # xs) =
     (if p x then Some 0 else (case findIndex p xs of None \<Rightarrow> None | Some k \<Rightarrow> Some (Suc k)))"

text \<open>
  \<^verbatim>\<open>[a[i], a[j]] = [a[j], a[i]]\<close>. In \<^verbatim>\<open>onMoveLayer\<close> the index found is below the length
  of the array, so \<^verbatim>\<open>newArr.length - 1\<close> is not negative and both indices of a swap are in
  range.
\<close>

definition swap :: "nat \<Rightarrow> nat \<Rightarrow> 'a list \<Rightarrow> 'a list" where
  "swap i j a = a[i := a ! j, j := a ! i]"

definition onMoveLayer :: "jsstring \<Rightarrow> jsstring \<Rightarrow> state \<Rightarrow> state" where
  "onMoveLayer i dir st =
     (case findIndex (\<lambda>t. id_t t = i) (textObjects st) of
        None \<Rightarrow> st
      | Some idx \<Rightarrow>
          let st1 = pushHistory st;
              newArr = textObjects st;
              newArr =
                (if dir = js ''up'' \<and> idx < length newArr - 1 then swap idx (idx + 1) newArr
                 else if dir = js ''down'' \<and> idx > 0 then swap idx (idx - 1) newArr
                 else newArr)
          in st1\<lparr>textObjects := newArr\<rparr>)"

section \<open>Text layout\<close>

text \<open>
  The part of \<^verbatim>\<open>draw\<close> that lays the words of a layer out: which strings are drawn, at
  which font size and where, in the layer's own frame (the rotation about the anchor is
  a transform around these calls). Background, opacity, shadow, stroke and the selection
  decoration do not enter the layout.

  \<^verbatim>\<open>ctx.measureText(s).width\<close> under the font \<^verbatim>\<open>900 <size>px '<family>'\<close> belongs to
  the browser: the layout takes it as a parameter, a function of the font size, the
  family and the string.
\<close>

type_synonym measurer = "real \<Rightarrow> jsstring \<Rightarrow> jsstring \<Rightarrow> real"

text \<open>\<^verbatim>\<open>s.split(sep)\<close> for a separator of one code unit.\<close>

fun split_on :: "nat \<Rightarrow> jsstring \<Rightarrow> jsstring list" where
  "split_on sep [] = [[]]"
| "split_on sep (c # cs) =
     (if c = sep then [] # split_on sep cs
      else (case split_on sep cs of [] \<Rightarrow> [[c]] | w # ws \<Rightarrow> (c # w) # ws))"

text \<open>The white space and line terminators that \<^verbatim>\<open>trim()\<close> removes at both ends.\<close>

definition is_white :: "nat \<Rightarrow> bool" where
  "is_white c \<longleftrightarrow>
     (9 \<le> c \<and> c \<le> 13) \<or> c = 32 \<or> c = 0xA0 \<or> c = 0x1680 \<or> (0x2000 \<le> c \<and> c \<le> 0x200A)
     \<or> c = 0x2028 \<or> c = 0x2029 \<or> c = 0x202F \<or> c = 0x205F \<or> c = 0x3000 \<or> c = 0xFEFF"

definition trim :: "jsstring \<Rightarrow> jsstring" where
  "trim s = rev (dropWhile is_white (rev (dropWhile is_white s)))"

text \<open>\<^verbatim>\<open>w.trim().replace(/[.,!\u061F]/g, '')\<close>: the class holds the full stop, the comma,
  the exclamation mark and the Arabic question mark.\<close>

definition cleanW :: "jsstring \<Rightarrow> jsstring" where
  "cleanW w = filter (\<lambda>c. c \<noteq> 46 \<and> c \<noteq> 44 \<and> c \<noteq> 33 \<and> c \<noteq> 0x61F) (trim w)"

text \<open>\<^verbatim>\<open>/[\u0600-\u06FF]/.test(line)\<close>.\<close>

definition isArabic :: "jsstring \<Rightarrow> bool" where
  "isArabic line = list_ex (\<lambda>c. 0x600 \<le> c \<and> c \<le> 0x6FF) line"

record wordMetric =
  word :: jsstring
  width :: real
  size_m :: real
  isHigh :: bool

definition wordMetrics :: "measurer \<Rightarrow> TextObject \<Rightarrow> jsstring list \<Rightarrow> wordMetric list" where
  "wordMetrics measureText obj words =
     map (\<lambda>w. let isHigh = (cleanW w \<in> set (highlightWords obj));
                  currentSize = (if isHigh then fontSize obj * highlightScale obj else fontSize obj)
              in \<lparr>word = w, width = measureText currentSize (fontFamily obj) (w @ js '' ''),
                  size_m = currentSize, isHigh = isHigh\<rparr>) words"

text \<open>
  One \<^verbatim>\<open>strokeText\<close>/\<^verbatim>\<open>fillText\<close> pair: the font size and family in force, the string,
  the position, and the fill style.
\<close>

record text_call =
  call_size :: real
  call_family :: jsstring
  call_text :: jsstring
  call_x :: real
  call_y :: real
  call_fillStyle :: jsstring

text \<open>\<^verbatim>\<open>wordMetrics.forEach(m => { ...; drawX += m.width; })\<close>.\<close>

fun draw_words :: "TextObject \<Rightarrow> real \<Rightarrow> real \<Rightarrow> wordMetric list \<Rightarrow> text_call list" where
  "draw_words obj lineY drawX [] = []"
| "draw_words obj lineY drawX (m # ms) =
     \<lparr>call_size = size_m m, call_family = fontFamily obj, call_text = word m,
      call_x = drawX, call_y = lineY,
      call_fillStyle = (if isHigh m then highlightColor obj else color obj)\<rparr>
     # draw_words obj lineY (drawX + width m) ms"

definition line_start :: "TextObject \<Rightarrow> real \<Rightarrow> real" where
  "line_start obj totalLineWidth =
     (if align obj = AlignCenter then x_t obj - totalLineWidth / 2
      else if align obj = AlignRight then x_t obj - totalLineWidth
      else x_t obj)"

definition draw_line :: "measurer \<Rightarrow> TextObject \<Rightarrow> real \<Rightarrow> jsstring \<Rightarrow> text_call list" where
  "draw_line measureText obj lineY line =
     (let words = split_on 32 line;
          words = (if isArabic line then rev words else words);
          metrics = wordMetrics measureText obj words;
          totalLineWidth = foldl (\<lambda>acc m. acc + width m) 0 metrics
      in draw_words obj lineY (line_start obj totalLineWidth) metrics)"

definition draw_text :: "measurer \<Rightarrow> TextObject \<Rightarrow> text_call list" where
  "draw_text measureText obj =
     (let lines = split_on 10 (text_t obj);
          baseLineHeight = fontSize obj * lineHeight obj;
          totalHeight = real (length lines) * baseLineHeight;
          startY = y_t obj - totalHeight / 2 + baseLineHeight / 2
      in concat (map (\<lambda>(i, line). draw_line measureText obj (startY + real i * baseLineHeight) line)
                   (enumerate 0 lines)))"

text \<open>\<^verbatim>\<open>textObjects.forEach(obj => { if (obj.isHidden) return; ... })\<close>.\<close>

definition draw_objects :: "measurer \<Rightarrow> TextObject list \<Rightarrow> text_call list" where
  "draw_objects measureText objs =
     concat (map (draw_text measureText) (filter (\<lambda>obj. \<not> truthy (isHidden obj)) objs))"

section \<open>Sequences of recorded operations\<close>

text \<open>
  The mutations that go through \<^verbatim>\<open>pushHistory\<close>, as the component performs them itself
  (no parent handler, the template dialog confirmed).
\<close>

datatype operation =
    AddLayer nat jsstring
  | DeleteLayer jsstring
  | ToggleHidden jsstring
  | ToggleLocked jsstring
  | ReorderLayer jsstring jsstring
  | UpdateLayerProperty jsstring assignment
  | ApplyTemplate "nat \<Rightarrow> nat" CanvasTemplate

fun exec :: "operation \<Rightarrow> state \<Rightarrow> state" where
  "exec (AddLayer now txt) st = handleAddTextLayer None now txt st"
| "exec (DeleteLayer i) st = onDelete i st"
| "exec (ToggleHidden i) st = onToggleHidden i st"
| "exec (ToggleLocked i) st = onToggleLock i st"
| "exec (ReorderLayer i dir) st = onMoveLayer i dir st"
| "exec (UpdateLayerProperty i kv) st = updateObject i kv True st"
| "exec (ApplyTemplate now tpl) st = handleApplyTemplate True now tpl st"

text \<open>
  An operation is recorded in a state when its handler reaches \<^verbatim>\<open>pushHistory\<close>: the
  reorder callback returns before it when the id names no layer.
\<close>

fun recorded :: "operation \<Rightarrow> state \<Rightarrow> bool" where
  "recorded (ReorderLayer i dir) st = (findIndex (\<lambda>t. id_t t = i) (textObjects st) \<noteq> None)"
| "recorded _ st = True"

fun run :: "operation list \<Rightarrow> state \<Rightarrow> state" where
  "run [] st = st"
| "run (a # as) st = run as (exec a st)"

fun all_recorded :: "operation list \<Rightarrow> state \<Rightarrow> bool" where
  "all_recorded [] st = True"
| "all_recorded (a # as) st = (recorded a st \<and> all_recorded as (exec a st))"


section \<open>Specification-side notions and example scenes\<close>

text \<open>
  The component's state at its first render (the initial values of its \<^verbatim>\<open>useState\<close>
  cells) around a layer sequence and a selection given by the parent.
\<close>

definition initial_state :: "TextObject list \<Rightarrow> jsstring \<Rightarrow> state" where
  "initial_state objs sel =
     \<lparr>textObjects = objs, selectedTextId = sel, history = [], future = [],
      dragOffset = (0, 0), snapLines = (None, None), showTemplates = False,
      isFullScreen = False\<rparr>"

definition demo_scene :: state where
  "demo_scene = initial_state [newObj 1 (js ''X'') 0] (js ''t1'')"

definition demo_ops :: "operation list" where
  "demo_ops = [AddLayer 5 (js ''Test''), UpdateLayerProperty (js ''t5'') (SetRotation 45),
               ReorderLayer (js ''t5'') (js ''down''), DeleteLayer (js ''t5'')]"

text \<open>
  The hit test in the words of the specification: a layer is a candidate for a pointer
  position when it is neither hidden nor locked and its anchor is less than 150 away.
\<close>

definition hit_candidate :: "real \<Rightarrow> real \<Rightarrow> TextObject \<Rightarrow> bool" where
  "hit_candidate mouseX mouseY obj \<longleftrightarrow>
     \<not> truthy (isHidden obj) \<and> \<not> truthy (isLocked obj)
     \<and> sqrt ((mouseX - x_t obj) ^ 2 + (mouseY - y_t obj) ^ 2) < 150"

text \<open>Two unlocked, visible layers with the same anchor (640, 360), nothing selected.\<close>

definition two_layers :: state where
  "two_layers = initial_state [newObj 1 (js ''A'') 0, newObj 2 (js ''B'') 1] []"

text \<open>
  Snapping in the words of the specification, with the comparison of the code: a
  coordinate strictly less than 15 away from the centre becomes the centre.
\<close>

definition snap_to :: "real \<Rightarrow> real \<Rightarrow> real" where
  "snap_to center v = (if \<bar>v - center\<bar> < 15 then center else v)"

text \<open>
  One selected layer at (640, 360) in the middle of a drag that started on its anchor;
  the same layer locked and selected; the key event of a plain right arrow.
\<close>

definition dragging_scene :: state where
  "dragging_scene = initial_state [(newObj 1 (js ''X'') 0)\<lparr>isDragging := Some True\<rparr>] (js ''t1'')"

definition locked_scene :: state where
  "locked_scene = initial_state [(newObj 1 (js ''X'') 0)\<lparr>isLocked := Some True\<rparr>] (js ''t1'')"

definition arrow_right :: key_event where
  "arrow_right = \<lparr>key = js ''ArrowRight'', ctrlKey = False, metaKey = False, shiftKey = False,
                  targetIsInput = False\<rparr>"

text \<open>
  A template with no layer definitions, and one whose single definition supplies the
  font family, the opacity and the locked flag besides its text.
\<close>

definition empty_partial :: PartialTextObject where
  "empty_partial =
     \<lparr>p_id = None, p_text = None, p_x = None, p_y = None, p_fontSize = None,
      p_fontFamily = None, p_color = None, p_strokeColor = None, p_strokeWidth = None,
      p_shadowColor = None, p_shadowBlur = None, p_highlightWords = None,
      p_highlightColor = None, p_highlightScale = None, p_lineHeight = None,
      p_opacity = None, p_rotation = None, p_align = None, p_isDragging = None,
      p_isLocked = None, p_isHidden = None, p_zIndex = None\<rparr>"

definition template_of :: "PartialTextObject list \<Rightarrow> CanvasTemplate" where
  "template_of objs =
     \<lparr>tpl_id = js ''t_x'', tpl_name = js ''x'', previewColor = js ''#ef4444'', objects = objs,
      isCustom = None\<rparr>"

definition styled_partial :: PartialTextObject where
  "styled_partial =
     empty_partial\<lparr>p_text := Some (js ''SALE''), p_fontFamily := Some (js ''Oswald''),
                   p_opacity := Some (1 / 2), p_isLocked := Some True\<rparr>"

text \<open>
  The first entry of \<^verbatim>\<open>TEMPLATES\<close>: the comparison template with its three layers.
\<close>

definition t_vs :: CanvasTemplate where
  "t_vs =
     \<lparr>tpl_id = js ''t_vs'',
      tpl_name = [0x645, 0x642, 0x627, 0x631, 0x646, 0x629] @ js '' (VS)'',
      previewColor = js ''#ef4444'',
      objects =
        [empty_partial\<lparr>p_text := Some (js ''VS''), p_x := Some 640, p_y := Some 360,
           p_fontSize := Some 120, p_color := Some (js ''#ffffff''),
           p_strokeColor := Some (js ''#000000''), p_strokeWidth := Some 8,
           p_highlightWords := Some [], p_rotation := Some 0\<rparr>,
         empty_partial\<lparr>p_text := Some [0x627, 0x644, 0x645, 0x646, 0x62A, 0x62C, 0x20,
                                        0x627, 0x644, 0x623, 0x648, 0x644],
           p_x := Some 300, p_y := Some 360, p_fontSize := Some 60,
           p_color := Some (js ''#fbbf24''), p_strokeColor := Some (js ''#000000''),
           p_strokeWidth := Some 4, p_rotation := Some (- 5)\<rparr>,
         empty_partial\<lparr>p_text := Some [0x627, 0x644, 0x645, 0x646, 0x62A, 0x62C, 0x20,
                                        0x627, 0x644, 0x62B, 0x627, 0x646, 0x64A],
           p_x := Some 980, p_y := Some 360, p_fontSize := Some 60,
           p_color := Some (js ''#fbbf24''), p_strokeColor := Some (js ''#000000''),
           p_strokeWidth := Some 4, p_rotation := Some 5\<rparr>],
      isCustom = None\<rparr>"

text \<open>
  A layer built from a template definition, property by property. A number or string
  taken from the template is the default when the template omits it and the template's
  value when it supplies a non-zero number or a non-empty string. \<open>now\<close> is the clock
  reading when the layer is built, \<open>k\<close> its index.
\<close>

definition num_from :: "real option \<Rightarrow> real \<Rightarrow> real \<Rightarrow> bool" where
  "num_from supplied dflt v \<longleftrightarrow>
     (supplied = None \<longrightarrow> v = dflt) \<and> (\<forall>w. supplied = Some w \<and> w \<noteq> 0 \<longrightarrow> v = w)"

definition str_from :: "jsstring option \<Rightarrow> jsstring \<Rightarrow> jsstring \<Rightarrow> bool" where
  "str_from supplied dflt v \<longleftrightarrow>
     (supplied = None \<longrightarrow> v = dflt) \<and> (\<forall>w. supplied = Some w \<and> w \<noteq> [] \<longrightarrow> v = w)"

definition built_from :: "nat \<Rightarrow> nat \<Rightarrow> PartialTextObject \<Rightarrow> TextObject \<Rightarrow> bool" where
  "built_from now k obj t \<longleftrightarrow>
     id_t t = js ''t_'' @ show_num now @ js ''_'' @ show_num k
     \<and> fontFamily t = js ''Cairo'' \<and> shadowBlur t = 10 \<and> shadowColor t = js ''rgba(0,0,0,0.8)''
     \<and> opacity t = 1 \<and> lineHeight t = 12 / 10 \<and> isLocked t = Some False
     \<and> isHidden t = Some False \<and> align t = AlignCenter
     \<and> str_from (p_text obj) placeholder_text (text_t t)
     \<and> num_from (p_x obj) 640 (x_t t)
     \<and> num_from (p_y obj) 360 (y_t t)
     \<and> num_from (p_fontSize obj) 60 (fontSize t)
     \<and> str_from (p_color obj) (js ''#fff'') (color t)
     \<and> str_from (p_strokeColor obj) (js ''#000'') (strokeColor t)
     \<and> num_from (p_strokeWidth obj) 2 (strokeWidth t)
     \<and> highlightWords t = (case p_highlightWords obj of None \<Rightarrow> [] | Some ws \<Rightarrow> ws)
     \<and> str_from (p_highlightColor obj) (js ''#fbbf24'') (highlightColor t)
     \<and> num_from (p_highlightScale obj) (11 / 10) (highlightScale t)
     \<and> rotation t = (case p_rotation obj of None \<Rightarrow> 0 | Some r \<Rightarrow> r)"

definition template_prefix :: "nat \<Rightarrow> jsstring" where
  "template_prefix now = js ''t_'' @ show_num now @ js ''_''"

text \<open>
  The size a word is drawn at, in the words of the specification: the font size times
  the highlight scale when the word, trimmed and without punctuation, is one of the
  layer's highlight words, the font size otherwise.
\<close>

definition drawn_size :: "TextObject \<Rightarrow> jsstring \<Rightarrow> real" where
  "drawn_size obj w =
     (if cleanW w \<in> set (highlightWords obj) then fontSize obj * highlightScale obj
      else fontSize obj)"

text \<open>
  The layer of the example: HELLO WORLD at font size 40 with WORLD highlighted at scale
  1.5; and a measurer for a fixed-pitch font, six tenths of the font size per code unit.
\<close>

definition hello_world :: TextObject where
  "hello_world =
     (newObj 1 (js ''HELLO WORLD'') 0)\<lparr>fontSize := 40, highlightWords := [js ''WORLD''],
                                        highlightScale := 3 / 2\<rparr>"

definition fixed_pitch :: measurer where
  "fixed_pitch sz family s = sz * (6 / 10) * real (length s)"

section \<open>Basic facts\<close>

lemma js_Nil [simp]: "js [] = []"
  by (simp add: js_def)

lemma js_Cons [simp]: "js (c # cs) = of_char c # js cs"
  by (simp add: js_def)

lemma length_slice_last: "length (slice_last n xs) \<le> n"
  by (simp add: slice_last_def)

lemma slice_last_keep:
  "length ys \<le> n \<Longrightarrow> slice_last n (xs @ ys) = drop (length xs + length ys - n) xs @ ys"
  by (simp add: slice_last_def)

lemma history_pushHistory [simp]:
  "history (pushHistory st) = slice_last 20 (history st @ [textObjects st])"
  by (simp add: pushHistory_def deep_copy_def)

lemma future_pushHistory [simp]: "future (pushHistory st) = []"
  by (simp add: pushHistory_def)

lemma textObjects_pushHistory [simp]: "textObjects (pushHistory st) = textObjects st"
  by (simp add: pushHistory_def)

lemma selectedTextId_pushHistory [simp]: "selectedTextId (pushHistory st) = selectedTextId st"
  by (simp add: pushHistory_def)

lemma history_exec:
  "recorded a st \<Longrightarrow> history (exec a st) = slice_last 20 (history st @ [textObjects st])"
  by (cases a)
     (auto simp: handleAddTextLayer_def onDelete_def onToggleHidden_def onToggleLock_def
        onMoveLayer_def updateObject_def handleApplyTemplate_def Let_def)

lemma future_exec: "recorded a st \<Longrightarrow> future (exec a st) = []"
  by (cases a)
     (auto simp: handleAddTextLayer_def onDelete_def onToggleHidden_def onToggleLock_def
        onMoveLayer_def updateObject_def handleApplyTemplate_def Let_def)

lemma run_snoc: "run (as @ [a]) st = exec a (run as st)"
  by (induction as arbitrary: st) simp_all

lemma all_recorded_snoc:
  "all_recorded (as @ [a]) st \<longleftrightarrow> all_recorded as st \<and> recorded a (run as st)"
  by (induction as arbitrary: st) simp_all

lemma history_run:
  "length as \<le> 20 \<Longrightarrow> all_recorded as st \<Longrightarrow>
     \<exists>k ss. history (run as st) = drop k (history st) @ ss \<and> length ss = length as
              \<and> (as \<noteq> [] \<longrightarrow> hd ss = textObjects st)"
proof (induction as rule: rev_induct)
  case Nil
  have "history (run [] st) = drop 0 (history st) @ [] \<and> length ([] :: TextObject list list) = length ([] :: operation list)
    \<and> (([] :: operation list) \<noteq> [] \<longrightarrow> hd [] = textObjects st)" by simp
  then show ?case by (intro exI)
next
  case (snoc a as)
  from snoc.prems have len: "length as < 20" and rec: "all_recorded as st"
    and reca: "recorded a (run as st)"
    by (simp_all add: all_recorded_snoc)
  from snoc.IH len rec obtain k ss where
    h: "history (run as st) = drop k (history st) @ ss" and l: "length ss = length as"
    and hd: "as \<noteq> [] \<longrightarrow> hd ss = textObjects st"
    by auto
  let ?T = "textObjects (run as st)"
  let ?ss = "ss @ [?T]"
  have "history (run (as @ [a]) st) = slice_last 20 (drop k (history st) @ ?ss)"
    by (simp add: run_snoc history_exec [OF reca] h)
  also have "\<dots> = drop (length (drop k (history st)) + length ?ss - 20) (drop k (history st)) @ ?ss"
    using len l by (intro slice_last_keep) simp
  finally have "history (run (as @ [a]) st)
      = drop (length (drop k (history st)) + length ?ss - 20 + k) (history st) @ ?ss"
    by simp
  moreover have "length ?ss = length (as @ [a])" using l by simp
  moreover have "hd ?ss = textObjects st"
  proof (cases "as = []")
    case True
    with l show ?thesis by simp
  next
    case False
    with l have "ss \<noteq> []" by auto
    with hd False show ?thesis by simp
  qed
  ultimately show ?case by blast
qed

lemma handleUndo_snoc:
  "history s = hs @ [z] \<Longrightarrow>
     textObjects (handleUndo s) = z \<and> history (handleUndo s) = hs"
  by (simp add: handleUndo_def)

lemma undo_pops:
  "history s = pre @ ss \<Longrightarrow> ss \<noteq> [] \<Longrightarrow>
     textObjects ((handleUndo ^^ length ss) s) = hd ss"
proof (induction ss arbitrary: s rule: rev_induct)
  case Nil
  then show ?case by simp
next
  case (snoc z zs)
  from snoc.prems have "history s = (pre @ zs) @ [z]" by simp
  from handleUndo_snoc [OF this]
  have t: "textObjects (handleUndo s) = z" and h: "history (handleUndo s) = pre @ zs"
    by simp_all
  have step: "(handleUndo ^^ length (zs @ [z])) s = (handleUndo ^^ length zs) (handleUndo s)"
    by (simp add: funpow_swap1)
  show ?case
  proof (cases "zs = []")
    case True
    with t show ?thesis by simp
  next
    case False
    with snoc.IH [OF h] step show ?thesis by simp
  qed
qed

lemmas handler_defs = handleAddTextLayer_def onDelete_def onToggleHidden_def onToggleLock_def
        onMoveLayer_def updateObject_def handleApplyTemplate_def

lemma show_num_digit: "n < 10 \<Longrightarrow> show_num n = [48 + n]"
  by (simp add: show_num.simps)

section \<open>Undoing a run of recorded operations\<close>

text \<open>
  Claim C1. After at most 20 operations, each of which reaches \<^verbatim>\<open>pushHistory\<close>
  (layer added, deleted, hidden or locked flag toggled, reordered, property updated with
  recording, template applied), as many calls of Undo give back exactly the initial
  layer sequence. The past stack never holds more than 20 snapshots after a push: the
  push keeps the last 20 of the old stack followed by the new snapshot, dropping from
  the old end. Undo and Redo move one snapshot between the two stacks, so the cap
  is kept by them too, from any state whose stacks hold at most 20 snapshots together.
\<close>

theorem undo_all_restores:
  "(length as \<le> 20 \<and> all_recorded as st \<longrightarrow>
      textObjects ((handleUndo ^^ length as) (run as st)) = textObjects st)
   \<and> length (history (pushHistory st)) \<le> 20
   \<and> history (pushHistory st)
       = drop (Suc (length (history st)) - 20) (history st @ [textObjects st])
   \<and> (length (history st) + length (future st) \<le> 20 \<longrightarrow>
        length (history (handleUndo st)) + length (future (handleUndo st)) \<le> 20
        \<and> length (history (handleRedo st)) + length (future (handleRedo st)) \<le> 20
        \<and> length (history (pushHistory st)) + length (future (pushHistory st)) \<le> 20)"
proof (intro conjI impI)
  assume c: "length (history st) + length (future st) \<le> 20"
  have "length (history (handleUndo st)) + length (future (handleUndo st))
          = length (history st) + length (future st)"
    by (cases "history st") (simp_all add: handleUndo_def Let_def)
  with c show "length (history (handleUndo st)) + length (future (handleUndo st)) \<le> 20"
    by simp
  have "length (history (handleRedo st)) + length (future (handleRedo st))
          = length (history st) + length (future st)"
    by (cases "future st") (simp_all add: handleRedo_def Let_def)
  with c show "length (history (handleRedo st)) + length (future (handleRedo st)) \<le> 20"
    by simp
  show "length (history (pushHistory st)) + length (future (pushHistory st)) \<le> 20"
    by (simp add: length_slice_last)
next
  assume a: "length as \<le> 20 \<and> all_recorded as st"
  show "textObjects ((handleUndo ^^ length as) (run as st)) = textObjects st"
  proof (cases "as = []")
    case True
    then show ?thesis by simp
  next
    case False
    from a history_run [of as st] obtain k ss where
      h: "history (run as st) = drop k (history st) @ ss" and l: "length ss = length as"
      and hd: "hd ss = textObjects st"
      using False by auto
    from l False have "ss \<noteq> []" by auto
    from undo_pops [OF h this] l hd show ?thesis by simp
  qed
next
  show "length (history (pushHistory st)) \<le> 20"
    by (simp add: length_slice_last)
  show "history (pushHistory st)
       = drop (Suc (length (history st)) - 20) (history st @ [textObjects st])"
    by (simp add: slice_last_def)
qed


theorem undo_all_restores_witness:
  "length demo_ops \<le> 20 \<and> all_recorded demo_ops demo_scene
   \<and> textObjects ((handleUndo ^^ length demo_ops) (run demo_ops demo_scene))
       = textObjects demo_scene"
proof -
  have r: "all_recorded demo_ops demo_scene"
    by (simp add: demo_ops_def demo_scene_def initial_state_def handler_defs pushHistory_def
          newObj_def show_num_digit Let_def)
  have l: "length demo_ops \<le> 20" by (simp add: demo_ops_def)
  from undo_all_restores [of demo_ops demo_scene] r l show ?thesis by blast
qed

section \<open>Undo and redo\<close>

text \<open>
  Claim C2. Undo on a non-empty past stack removes its last snapshot, puts the
  pre-undo layer sequence in front of the future stack and installs the snapshot; on an
  empty past stack it changes nothing. Redo on a non-empty future stack removes its
  first snapshot, appends the current layer sequence to the past stack and installs the
  snapshot; on an empty future stack it changes nothing. Hence, from a state with a
  past snapshot, Undo followed by Redo gives back the layer sequence, and indeed the
  whole state.
\<close>

theorem undo_redo_spec:
  "handleUndo st =
     (if history st = [] then st
      else st\<lparr>future := textObjects st # future st, textObjects := last (history st),
              history := butlast (history st)\<rparr>)
   \<and> handleRedo st =
     (if future st = [] then st
      else st\<lparr>history := history st @ [textObjects st], textObjects := hd (future st),
              future := tl (future st)\<rparr>)
   \<and> (history st \<noteq> [] \<longrightarrow>
        textObjects (handleRedo (handleUndo st)) = textObjects st
        \<and> handleRedo (handleUndo st) = st)"
proof (intro conjI impI)
  show u: "handleUndo st =
     (if history st = [] then st
      else st\<lparr>future := textObjects st # future st, textObjects := last (history st),
              history := butlast (history st)\<rparr>)"
    by (simp add: handleUndo_def last_conv_nth butlast_conv_take)
  show r: "handleRedo st =
     (if future st = [] then st
      else st\<lparr>history := history st @ [textObjects st], textObjects := hd (future st),
              future := tl (future st)\<rparr>)" for st
    by (simp add: handleRedo_def hd_conv_nth drop_Suc)
  assume h: "history st \<noteq> []"
  have "handleRedo (handleUndo st) =
          st\<lparr>future := future st, textObjects := textObjects st,
             history := butlast (history st) @ [last (history st)]\<rparr>"
    unfolding r using h by (simp add: u)
  also have "\<dots> = st" using h by simp
  finally show "handleRedo (handleUndo st) = st" .
  then show "textObjects (handleRedo (handleUndo st)) = textObjects st"
    by simp
qed

theorem undo_redo_spec_witness:
  "history (exec (ToggleLocked (js ''t1'')) demo_scene) \<noteq> []
   \<and> handleRedo (handleUndo (exec (ToggleLocked (js ''t1'')) demo_scene))
       = exec (ToggleLocked (js ''t1'')) demo_scene"
proof -
  have "history (exec (ToggleLocked (js ''t1'')) demo_scene) \<noteq> []"
    by (simp add: onToggleLock_def slice_last_def Let_def)
  with undo_redo_spec [of "exec (ToggleLocked (js ''t1'')) demo_scene"] show ?thesis by blast
qed

section \<open>A new mutation discards the redo state\<close>

text \<open>
  Claim C8. After any number of Undo calls, a recorded mutation leaves the future
  stack empty, and a Redo that follows changes nothing.
\<close>

theorem mutation_clears_future:
  "recorded a ((handleUndo ^^ n) st) \<longrightarrow>
     future (exec a ((handleUndo ^^ n) st)) = []
     \<and> handleRedo (exec a ((handleUndo ^^ n) st)) = exec a ((handleUndo ^^ n) st)"
  by (simp add: future_exec handleRedo_def)

theorem mutation_clears_future_witness:
  "future (handleUndo (exec (ToggleLocked (js ''t1'')) demo_scene)) \<noteq> []
   \<and> recorded (ReorderLayer (js ''t1'') (js ''up''))
        ((handleUndo ^^ 1) (exec (ToggleLocked (js ''t1'')) demo_scene))
   \<and> future (exec (ReorderLayer (js ''t1'') (js ''up''))
        ((handleUndo ^^ 1) (exec (ToggleLocked (js ''t1'')) demo_scene))) = []
   \<and> handleRedo (exec (ReorderLayer (js ''t1'') (js ''up''))
        ((handleUndo ^^ 1) (exec (ToggleLocked (js ''t1'')) demo_scene)))
      = exec (ReorderLayer (js ''t1'') (js ''up''))
        ((handleUndo ^^ 1) (exec (ToggleLocked (js ''t1'')) demo_scene))"
proof -
  let ?s = "exec (ToggleLocked (js ''t1'')) demo_scene"
  have u: "handleUndo ?s = demo_scene\<lparr>future := [textObjects ?s]\<rparr>"
    by (simp add: handleUndo_def onToggleLock_def pushHistory_def demo_scene_def
          initial_state_def slice_last_def deep_copy_def Let_def)
  have f: "future (handleUndo ?s) \<noteq> []" by (simp only: u) simp
  have "recorded (ReorderLayer (js ''t1'') (js ''up'')) (handleUndo ?s)"
    by (simp only: u) (simp add: demo_scene_def initial_state_def newObj_def show_num_digit)
  then have r: "recorded (ReorderLayer (js ''t1'') (js ''up'')) ((handleUndo ^^ 1) ?s)"
    by simp
  from mutation_clears_future [of "ReorderLayer (js ''t1'') (js ''up'')" 1 ?s] r f
  show ?thesis by blast
qed

section \<open>Pointer down: hit testing\<close>

lemma hit_loop_Suc:
  "hit_loop objs mouseX mouseY (Suc i) =
     (if hit_candidate mouseX mouseY (objs ! i) then Some (objs ! i)
      else hit_loop objs mouseX mouseY i)"
  by (simp add: hit_candidate_def Let_def)

lemma hit_loop_find:
  "n \<le> length objs \<Longrightarrow>
     hit_loop objs mouseX mouseY n = find (hit_candidate mouseX mouseY) (rev (take n objs))"
proof (induction n)
  case 0
  then show ?case by simp
next
  case (Suc n)
  then have "take (Suc n) objs = take n objs @ [objs ! n]"
    by (simp add: take_Suc_conv_app_nth)
  with Suc show ?case by (simp only: hit_loop_Suc) simp
qed

lemma hit_loop_Some_iff:
  "hit_loop objs mouseX mouseY n = Some obj \<longleftrightarrow>
     (\<exists>k<n. obj = objs ! k \<and> hit_candidate mouseX mouseY (objs ! k)
            \<and> (\<forall>m. k < m \<and> m < n \<longrightarrow> \<not> hit_candidate mouseX mouseY (objs ! m)))"
proof (induction n)
  case 0
  then show ?case by simp
next
  case (Suc n)
  show ?case
  proof (cases "hit_candidate mouseX mouseY (objs ! n)")
    case True
    have "(\<exists>k<Suc n. obj = objs ! k \<and> hit_candidate mouseX mouseY (objs ! k)
            \<and> (\<forall>m. k < m \<and> m < Suc n \<longrightarrow> \<not> hit_candidate mouseX mouseY (objs ! m)))
          \<longleftrightarrow> obj = objs ! n"
    proof
      assume "\<exists>k<Suc n. obj = objs ! k \<and> hit_candidate mouseX mouseY (objs ! k)
            \<and> (\<forall>m. k < m \<and> m < Suc n \<longrightarrow> \<not> hit_candidate mouseX mouseY (objs ! m))"
      then obtain k where k: "k < Suc n" "obj = objs ! k"
        and top: "\<forall>m. k < m \<and> m < Suc n \<longrightarrow> \<not> hit_candidate mouseX mouseY (objs ! m)"
        by blast
      from top True have "\<not> k < n" by auto
      with k show "obj = objs ! n" by (simp add: less_Suc_eq)
    next
      assume "obj = objs ! n"
      with True show "\<exists>k<Suc n. obj = objs ! k \<and> hit_candidate mouseX mouseY (objs ! k)
            \<and> (\<forall>m. k < m \<and> m < Suc n \<longrightarrow> \<not> hit_candidate mouseX mouseY (objs ! m))"
        by (intro exI [of _ n]) auto
    qed
    with True show ?thesis by (simp only: hit_loop_Suc) auto
  next
    case False
    have "(\<exists>k<Suc n. obj = objs ! k \<and> hit_candidate mouseX mouseY (objs ! k)
            \<and> (\<forall>m. k < m \<and> m < Suc n \<longrightarrow> \<not> hit_candidate mouseX mouseY (objs ! m)))
          \<longleftrightarrow> (\<exists>k<n. obj = objs ! k \<and> hit_candidate mouseX mouseY (objs ! k)
            \<and> (\<forall>m. k < m \<and> m < n \<longrightarrow> \<not> hit_candidate mouseX mouseY (objs ! m)))"
      using False by (metis less_Suc_eq)
    with False Suc show ?thesis by (simp only: hit_loop_Suc) simp
  qed
qed

lemma hit_loop_None_iff:
  "hit_loop objs mouseX mouseY n = None \<longleftrightarrow>
     (\<forall>k<n. \<not> hit_candidate mouseX mouseY (objs ! k))"
  by (induction n) (auto simp only: hit_loop_Suc hit_loop.simps less_Suc_eq split: if_splits)

lemma handleMouseDown_miss:
  "hit_loop (textObjects st) mouseX mouseY (length (textObjects st)) = None \<Longrightarrow>
     handleMouseDown (Some (mouseX, mouseY)) st = st\<lparr>selectedTextId := []\<rparr>"
  by (simp add: handleMouseDown_def)

lemma handleMouseDown_hit:
  "hit_loop (textObjects st) mouseX mouseY (length (textObjects st)) = Some obj \<Longrightarrow>
     handleMouseDown (Some (mouseX, mouseY)) st =
       st\<lparr>history := slice_last 20 (history st @ [textObjects st]), future := [],
          selectedTextId := id_t obj,
          textObjects := map (\<lambda>t. if id_t t = id_t obj then t\<lparr>isDragging := Some True\<rparr> else t)
                           (textObjects st),
          dragOffset := (mouseX - x_t obj, mouseY - y_t obj)\<rparr>"
  by (simp add: handleMouseDown_def pushHistory_def deep_copy_def Let_def)

text \<open>
  Claim C4. The loop of the pointer-down handler returns the first layer, going from
  the top of the paint order down, that is neither hidden nor locked and whose anchor is
  within the hit radius (less than 150 away) of the pointer: it is the search for the
  first candidate in the reversed layer sequence. When two layers are candidates, the
  layer taken is a candidate at or above the upper one with no candidate above it. A
  pointer-down that hits nothing clears the selection and leaves both history stacks as
  they are; a hit pushes one snapshot, selects the layer, marks it dragging and records
  the offset of the pointer from its anchor.
\<close>

theorem pointer_down_spec:
  "hit_loop objs mouseX mouseY (length objs) = find (hit_candidate mouseX mouseY) (rev objs)
   \<and> (\<forall>i j. i < j \<and> j < length objs \<and> hit_candidate mouseX mouseY (objs ! i)
              \<and> hit_candidate mouseX mouseY (objs ! j) \<longrightarrow>
         (\<exists>k. j \<le> k \<and> k < length objs
              \<and> hit_loop objs mouseX mouseY (length objs) = Some (objs ! k)
              \<and> hit_candidate mouseX mouseY (objs ! k)
              \<and> (\<forall>m. k < m \<and> m < length objs \<longrightarrow> \<not> hit_candidate mouseX mouseY (objs ! m))))
   \<and> (hit_loop (textObjects st) mouseX mouseY (length (textObjects st)) = None \<longrightarrow>
         handleMouseDown (Some (mouseX, mouseY)) st = st\<lparr>selectedTextId := []\<rparr>
         \<and> history (handleMouseDown (Some (mouseX, mouseY)) st) = history st
         \<and> future (handleMouseDown (Some (mouseX, mouseY)) st) = future st)
   \<and> (\<forall>obj. hit_loop (textObjects st) mouseX mouseY (length (textObjects st)) = Some obj \<longrightarrow>
         handleMouseDown (Some (mouseX, mouseY)) st =
           st\<lparr>history := slice_last 20 (history st @ [textObjects st]), future := [],
              selectedTextId := id_t obj,
              textObjects :=
                map (\<lambda>t. if id_t t = id_t obj then t\<lparr>isDragging := Some True\<rparr> else t)
                  (textObjects st),
              dragOffset := (mouseX - x_t obj, mouseY - y_t obj)\<rparr>)"
proof (intro conjI allI impI)
  show "hit_loop objs mouseX mouseY (length objs) = find (hit_candidate mouseX mouseY) (rev objs)"
    by (simp add: hit_loop_find)
next
  fix i j
  assume a: "i < j \<and> j < length objs \<and> hit_candidate mouseX mouseY (objs ! i)
              \<and> hit_candidate mouseX mouseY (objs ! j)"
  then have "hit_loop objs mouseX mouseY (length objs) \<noteq> None"
    by (auto simp: hit_loop_None_iff)
  then obtain obj where s: "hit_loop objs mouseX mouseY (length objs) = Some obj" by auto
  then obtain k where k: "k < length objs" "obj = objs ! k"
    "hit_candidate mouseX mouseY (objs ! k)"
    and top: "\<forall>m. k < m \<and> m < length objs \<longrightarrow> \<not> hit_candidate mouseX mouseY (objs ! m)"
    unfolding hit_loop_Some_iff by blast
  from top a have "j \<le> k" by (meson not_le_imp_less)
  with k top s
  show "\<exists>k. j \<le> k \<and> k < length objs
              \<and> hit_loop objs mouseX mouseY (length objs) = Some (objs ! k)
              \<and> hit_candidate mouseX mouseY (objs ! k)
              \<and> (\<forall>m. k < m \<and> m < length objs \<longrightarrow> \<not> hit_candidate mouseX mouseY (objs ! m))"
    by blast
next
  assume n: "hit_loop (textObjects st) mouseX mouseY (length (textObjects st)) = None"
  show "handleMouseDown (Some (mouseX, mouseY)) st = st\<lparr>selectedTextId := []\<rparr>"
    and "history (handleMouseDown (Some (mouseX, mouseY)) st) = history st"
    and "future (handleMouseDown (Some (mouseX, mouseY)) st) = future st"
    by (simp_all add: handleMouseDown_miss [OF n])
next
  fix obj
  assume "hit_loop (textObjects st) mouseX mouseY (length (textObjects st)) = Some obj"
  then show "handleMouseDown (Some (mouseX, mouseY)) st =
           st\<lparr>history := slice_last 20 (history st @ [textObjects st]), future := [],
              selectedTextId := id_t obj,
              textObjects :=
                map (\<lambda>t. if id_t t = id_t obj then t\<lparr>isDragging := Some True\<rparr> else t)
                  (textObjects st),
              dragOffset := (mouseX - x_t obj, mouseY - y_t obj)\<rparr>"
    by (rule handleMouseDown_hit)
qed

lemma sqrt_less_150: "sqrt a < 150 \<longleftrightarrow> a < 22500"
proof -
  have "sqrt 22500 = 150" by (rule real_sqrt_unique) simp_all
  then show ?thesis by (metis real_sqrt_less_iff)
qed

lemma two_layers_objs:
  "textObjects two_layers = [newObj 1 (js ''A'') 0, newObj 2 (js ''B'') 1]"
  by (simp add: two_layers_def initial_state_def)

lemma cand_newObj:
  "hit_candidate mouseX mouseY (newObj now txt n) \<longleftrightarrow>
     (mouseX - 640) ^ 2 + (mouseY - 360) ^ 2 < 22500"
  by (simp add: hit_candidate_def newObj_def sqrt_less_150)

theorem pointer_down_spec_witness:
  "(0::nat) < 1 \<and> 1 < length (textObjects two_layers)
   \<and> hit_candidate 700 400 (textObjects two_layers ! 0)
   \<and> hit_candidate 700 400 (textObjects two_layers ! 1)
   \<and> hit_loop (textObjects two_layers) 700 400 (length (textObjects two_layers))
       = Some (textObjects two_layers ! 1)
   \<and> selectedTextId (handleMouseDown (Some (700, 400)) two_layers) = js ''t2''
   \<and> history (handleMouseDown (Some (700, 400)) two_layers) = [textObjects two_layers]
   \<and> dragOffset (handleMouseDown (Some (700, 400)) two_layers) = (60, 40)
   \<and> hit_loop (textObjects two_layers) 0 0 (length (textObjects two_layers)) = None
   \<and> handleMouseDown (Some (0, 0)) two_layers = two_layers\<lparr>selectedTextId := []\<rparr>"
proof -
  let ?objs = "textObjects two_layers"
  have c0: "hit_candidate 700 400 (?objs ! 0)" and c1: "hit_candidate 700 400 (?objs ! 1)"
    by (simp_all add: two_layers_objs cand_newObj)
  have len: "length ?objs = 2" by (simp add: two_layers_objs)
  have miss: "hit_loop ?objs 0 0 (length ?objs) = None"
    unfolding hit_loop_None_iff len
  proof (intro allI impI)
    fix k :: nat
    assume "k < 2"
    then have "k = 0 \<or> k = 1" by auto
    then show "\<not> hit_candidate 0 0 (?objs ! k)"
      by (auto simp: two_layers_objs cand_newObj)
  qed
  note spec = pointer_down_spec [of ?objs 700 400 two_layers]
  have pre: "(0::nat) < 1 \<and> 1 < length ?objs \<and> hit_candidate 700 400 (?objs ! 0)
      \<and> hit_candidate 700 400 (?objs ! 1)"
    using c0 c1 len by simp
  from spec [THEN conjunct2, THEN conjunct1, rule_format, OF pre]
  obtain k where k: "1 \<le> k" "k < length ?objs"
    and hit: "hit_loop ?objs 700 400 (length ?objs) = Some (?objs ! k)"
    by blast
  from k len have "k = 1" by simp
  with hit have hit1: "hit_loop ?objs 700 400 (length ?objs) = Some (?objs ! 1)" by simp
  from spec [THEN conjunct2, THEN conjunct2, THEN conjunct2, rule_format, OF hit1] have down: "handleMouseDown (Some (700, 400)) two_layers =
           two_layers\<lparr>history := slice_last 20 (history two_layers @ [?objs]), future := [],
              selectedTextId := id_t (?objs ! 1),
              textObjects :=
                map (\<lambda>t. if id_t t = id_t (?objs ! 1) then t\<lparr>isDragging := Some True\<rparr> else t) ?objs,
              dragOffset := (700 - x_t (?objs ! 1), 400 - y_t (?objs ! 1))\<rparr>" .
  have sel: "selectedTextId (handleMouseDown (Some (700, 400)) two_layers) = js ''t2''"
    by (simp only: down) (simp add: two_layers_objs newObj_def show_num_digit)
  have hist: "history (handleMouseDown (Some (700, 400)) two_layers) = [?objs]"
    by (simp only: down) (simp add: two_layers_def initial_state_def slice_last_def)
  have off: "dragOffset (handleMouseDown (Some (700, 400)) two_layers) = (60, 40)"
    by (simp only: down) (simp add: two_layers_objs newObj_def)
  from pointer_down_spec [of ?objs 0 0 two_layers, THEN conjunct2, THEN conjunct2,
      THEN conjunct1, rule_format, OF miss]
  have "handleMouseDown (Some (0, 0)) two_layers = two_layers\<lparr>selectedTextId := []\<rparr>"
    by (rule conjunct1)
  with c0 c1 len hit1 sel hist off miss show ?thesis by simp
qed

section \<open>Dragging and snapping\<close>

lemma handleMouseMove_drag:
  assumes "find (\<lambda>t. id_t t = selectedTextId st) (textObjects st) = Some a"
    and "truthy (isDragging a)" and "\<not> truthy (isLocked a)"
  shows "handleMouseMove (Some (mouseX, mouseY)) st =
     st\<lparr>snapLines :=
          (if \<bar>mouseX - fst (dragOffset st) - 640\<bar> < 15 then Some 640 else None,
           if \<bar>mouseY - snd (dragOffset st) - 360\<bar> < 15 then Some 360 else None),
        textObjects :=
          map (\<lambda>t. if id_t t = selectedTextId st
                   then t\<lparr>x_t := snap_to 640 (mouseX - fst (dragOffset st)),
                          y_t := snap_to 360 (mouseY - snd (dragOffset st))\<rparr>
                   else t) (textObjects st)\<rparr>"
  using assms by (simp add: handleMouseMove_def snap_to_def Let_def)

text \<open>
  Claim C3, as amended. While the selected layer is dragging and unlocked, a pointer
  move stores, independently for each axis, the centre (640 or 360) when the unsnapped
  coordinate is strictly less than 15 away from it, and the unsnapped coordinate
  otherwise. So 628 is stored as 640 and 626 as 640, while 620, 624 and 625 are stored
  unchanged.
\<close>

theorem drag_snap_spec:
  "(find (\<lambda>t. id_t t = selectedTextId st) (textObjects st) = Some a
      \<and> truthy (isDragging a) \<and> \<not> truthy (isLocked a) \<longrightarrow>
      textObjects (handleMouseMove (Some (mouseX, mouseY)) st) =
        map (\<lambda>t. if id_t t = selectedTextId st
                 then t\<lparr>x_t := snap_to 640 (mouseX - fst (dragOffset st)),
                        y_t := snap_to 360 (mouseY - snd (dragOffset st))\<rparr>
                 else t) (textObjects st))
   \<and> snap_to c v = (if \<bar>v - c\<bar> < 15 then c else v)
   \<and> snap_to 640 628 = 640 \<and> snap_to 640 620 = 620 \<and> snap_to 640 626 = 640
   \<and> snap_to 640 625 = 625 \<and> snap_to 640 624 = 624"
proof (intro conjI impI)
  assume "find (\<lambda>t. id_t t = selectedTextId st) (textObjects st) = Some a
      \<and> truthy (isDragging a) \<and> \<not> truthy (isLocked a)"
  then show "textObjects (handleMouseMove (Some (mouseX, mouseY)) st) =
        map (\<lambda>t. if id_t t = selectedTextId st
                 then t\<lparr>x_t := snap_to 640 (mouseX - fst (dragOffset st)),
                        y_t := snap_to 360 (mouseY - snd (dragOffset st))\<rparr>
                 else t) (textObjects st)"
    by (simp add: handleMouseMove_drag)
qed (simp_all add: snap_to_def)

lemma dragging_scene_active:
  "find (\<lambda>t. id_t t = selectedTextId dragging_scene) (textObjects dragging_scene)
     = Some ((newObj 1 (js ''X'') 0)\<lparr>isDragging := Some True\<rparr>)"
  by (simp add: dragging_scene_def initial_state_def newObj_def show_num_digit)

lemma dragging_scene_move:
  "map (\<lambda>t. (x_t t, y_t t)) (textObjects (handleMouseMove (Some (mouseX, mouseY)) dragging_scene))
     = [(snap_to 640 mouseX, snap_to 360 mouseY)]"
proof -
  have "\<not> truthy (isLocked ((newObj 1 (js ''X'') 0)\<lparr>isDragging := Some True\<rparr>))"
    by (simp add: newObj_def)
  from handleMouseMove_drag [OF dragging_scene_active _ this, of mouseX mouseY]
  show ?thesis
    by (simp add: dragging_scene_def initial_state_def newObj_def show_num_digit)
qed

theorem drag_snap_spec_witness:
  "find (\<lambda>t. id_t t = selectedTextId dragging_scene) (textObjects dragging_scene)
     = Some ((newObj 1 (js ''X'') 0)\<lparr>isDragging := Some True\<rparr>)
   \<and> truthy (isDragging ((newObj 1 (js ''X'') 0)\<lparr>isDragging := Some True\<rparr>))
   \<and> \<not> truthy (isLocked ((newObj 1 (js ''X'') 0)\<lparr>isDragging := Some True\<rparr>))
   \<and> map (\<lambda>t. (x_t t, y_t t)) (textObjects (handleMouseMove (Some (628, 100)) dragging_scene))
       = [(640, 100)]"
proof -
  let ?a = "(newObj 1 (js ''X'') 0)\<lparr>isDragging := Some True\<rparr>"
  have h: "find (\<lambda>t. id_t t = selectedTextId dragging_scene) (textObjects dragging_scene) = Some ?a
      \<and> truthy (isDragging ?a) \<and> \<not> truthy (isLocked ?a)"
    by (simp add: dragging_scene_active) (simp add: newObj_def)
  from drag_snap_spec [of dragging_scene ?a 628 100, THEN conjunct1, rule_format, OF h]
  have "map (\<lambda>t. (x_t t, y_t t)) (textObjects (handleMouseMove (Some (628, 100)) dragging_scene))
       = [(640, 100)]"
    by (simp add: dragging_scene_def initial_state_def newObj_def show_num_digit snap_to_def)
  with h show ?thesis by simp
qed

text \<open>
  The claim as stated fails at the boundary: an unsnapped X of 625 is exactly 15 away from
  640, the comparison is strict, and 625 is stored.
\<close>

theorem drag_snap_625_counterexample:
  "map x_t (textObjects (handleMouseMove (Some (625, 100)) dragging_scene)) = [625]
   \<and> (625::real) \<noteq> 640"
proof -
  have "map (\<lambda>t. (x_t t, y_t t)) (textObjects (handleMouseMove (Some (625, 100)) dragging_scene))
          = [(625, 100)]"
    by (simp only: dragging_scene_move) (simp add: snap_to_def)
  then show ?thesis by auto
qed

section \<open>Locked layers\<close>

lemma handleMouseMove_locked:
  "find (\<lambda>t. id_t t = selectedTextId st) (textObjects st) = Some a \<Longrightarrow> truthy (isLocked a) \<Longrightarrow>
     handleMouseMove canvas st = st"
  by (simp add: handleMouseMove_def)

text \<open>
  Claim C5 fails on the keyboard path. The pointer-move handler returns at once when
  the selected layer is locked (the lemma above), but the key handler has no such test:
  on a scene whose only layer is locked and selected, a right arrow moves the anchor
  from 640 to 641 (without touching the history stacks).
\<close>

theorem nudge_moves_locked_layer:
  "map (\<lambda>t. (id_t t, truthy (isLocked t), x_t t)) (textObjects locked_scene)
     = [(selectedTextId locked_scene, True, 640)]
   \<and> map (\<lambda>t. (id_t t, truthy (isLocked t), x_t t))
        (textObjects (handleKeyDown arrow_right locked_scene))
     = [(selectedTextId locked_scene, True, 641)]
   \<and> history (handleKeyDown arrow_right locked_scene) = history locked_scene"
  by (simp add: locked_scene_def arrow_right_def initial_state_def newObj_def show_num_digit
        handleKeyDown_def updateObject_def toLowerCase_def Let_def)

section \<open>Degenerate updates and reorders\<close>

lemma map_no_match: "\<forall>t\<in>set xs. \<not> p t \<Longrightarrow> map (\<lambda>t. if p t then f t else t) xs = xs"
  by (induction xs) simp_all

text \<open>
  Claim C7, as amended. A recorded property update whose id matches no layer leaves
  the layer sequence unchanged, but it is recorded all the same: it pushes a snapshot
  of the unchanged sequence on the past stack (capped at 20) and empties the future
  stack, and changes nothing else. A reorder whose target is already at the boundary
  it is moved towards (up at the top, down at the bottom) leaves the layer sequence and
  the selection unchanged. Neither raises an error.
\<close>

theorem degenerate_update_reorder:
  "((\<forall>t\<in>set (textObjects st). id_t t \<noteq> i) \<longrightarrow>
      textObjects (updateObject i kv True st) = textObjects st
      \<and> updateObject i kv True st =
          st\<lparr>history := slice_last 20 (history st @ [textObjects st]), future := []\<rparr>)
   \<and> (findIndex (\<lambda>t. id_t t = i) (textObjects st) = Some idx
        \<and> (dir = js ''up'' \<and> idx = length (textObjects st) - 1 \<or> dir = js ''down'' \<and> idx = 0) \<longrightarrow>
      textObjects (onMoveLayer i dir st) = textObjects st
      \<and> selectedTextId (onMoveLayer i dir st) = selectedTextId st)"
proof (intro conjI impI)
  assume n: "\<forall>t\<in>set (textObjects st). id_t t \<noteq> i"
  then have m: "map (\<lambda>t. if id_t t = i then assign kv t else t) (textObjects st) = textObjects st"
    by (intro map_no_match) simp
  then show u: "updateObject i kv True st =
          st\<lparr>history := slice_last 20 (history st @ [textObjects st]), future := []\<rparr>"
    by (simp add: updateObject_def pushHistory_def deep_copy_def Let_def)
  show "textObjects (updateObject i kv True st) = textObjects st"
    by (simp add: u)
next
  assume a: "findIndex (\<lambda>t. id_t t = i) (textObjects st) = Some idx
        \<and> (dir = js ''up'' \<and> idx = length (textObjects st) - 1 \<or> dir = js ''down'' \<and> idx = 0)"
  then have f: "findIndex (\<lambda>t. id_t t = i) (textObjects st) = Some idx" by simp
  have ud: "js ''up'' \<noteq> js ''down''" by simp
  from a ud show "textObjects (onMoveLayer i dir st) = textObjects st"
    by (auto simp add: onMoveLayer_def f Let_def simp del: js_Cons)
  show "selectedTextId (onMoveLayer i dir st) = selectedTextId st"
    by (simp add: onMoveLayer_def f Let_def)
qed

theorem degenerate_update_reorder_witness:
  "js ''t9'' \<notin> id_t ` set (textObjects demo_scene)
   \<and> textObjects (updateObject (js ''t9'') (SetRotation 45) True demo_scene) = textObjects demo_scene
   \<and> findIndex (\<lambda>t. id_t t = js ''t2'') (textObjects two_layers) = Some 1
   \<and> textObjects (onMoveLayer (js ''t2'') (js ''up'') two_layers) = textObjects two_layers
   \<and> findIndex (\<lambda>t. id_t t = js ''t1'') (textObjects two_layers) = Some 0
   \<and> textObjects (onMoveLayer (js ''t1'') (js ''down'') two_layers) = textObjects two_layers"
proof -
  have n: "\<forall>t\<in>set (textObjects demo_scene). id_t t \<noteq> js ''t9''"
    by (simp add: demo_scene_def initial_state_def newObj_def show_num_digit)
  have f2: "findIndex (\<lambda>t. id_t t = js ''t2'') (textObjects two_layers) = Some 1"
    and f1: "findIndex (\<lambda>t. id_t t = js ''t1'') (textObjects two_layers) = Some 0"
    by (simp_all add: two_layers_def initial_state_def newObj_def show_num_digit)
  have l: "length (textObjects two_layers) - 1 = 1"
    by (simp add: two_layers_def initial_state_def)
  note u = degenerate_update_reorder [where st = demo_scene and i = "js ''t9''"
      and kv = "SetRotation 45",
      THEN conjunct1, THEN mp, OF n, THEN conjunct1]
  have "findIndex (\<lambda>t. id_t t = js ''t2'') (textObjects two_layers) = Some 1
        \<and> (js ''up'' = js ''up'' \<and> 1 = length (textObjects two_layers) - 1
            \<or> js ''up'' = js ''down'' \<and> (1::nat) = 0)"
    using f2 l by simp
  note up = degenerate_update_reorder [where st = two_layers and i = "js ''t2''" and idx = 1
      and dir = "js ''up''",
      THEN conjunct2, rule_format, OF this, THEN conjunct1]
  have "findIndex (\<lambda>t. id_t t = js ''t1'') (textObjects two_layers) = Some 0
        \<and> (js ''down'' = js ''up'' \<and> 0 = length (textObjects two_layers) - 1
            \<or> js ''down'' = js ''down'' \<and> (0::nat) = 0)"
    using f1 by simp
  note down = degenerate_update_reorder [where st = two_layers and i = "js ''t1''" and idx = 0
      and dir = "js ''down''",
      THEN conjunct2, rule_format, OF this, THEN conjunct1]
  from n have "js ''t9'' \<notin> id_t ` set (textObjects demo_scene)" by auto
  with u f2 up f1 down show ?thesis by blast
qed

text \<open>
  The claim as stated fails: on a scene with empty stacks, the update of an id that
  names no layer and the move up of the only layer both leave a snapshot on the past
  stack; after an Undo, which fills the future stack, both empty it.
\<close>

theorem degenerate_ops_touch_history_counterexample:
  "js ''t9'' \<notin> id_t ` set (textObjects demo_scene)
   \<and> history demo_scene = []
   \<and> history (updateObject (js ''t9'') (SetRotation 45) True demo_scene) = [textObjects demo_scene]
   \<and> findIndex (\<lambda>t. id_t t = js ''t1'') (textObjects demo_scene)
       = Some (length (textObjects demo_scene) - 1)
   \<and> history (onMoveLayer (js ''t1'') (js ''up'') demo_scene) = [textObjects demo_scene]
   \<and> future (handleUndo (onToggleLock (js ''t1'') demo_scene)) \<noteq> []
   \<and> future (updateObject (js ''t9'') (SetRotation 45) True
               (handleUndo (onToggleLock (js ''t1'') demo_scene))) = []"
  by (simp add: demo_scene_def initial_state_def newObj_def show_num_digit updateObject_def
        onMoveLayer_def onToggleLock_def handleUndo_def pushHistory_def deep_copy_def
        slice_last_def Let_def)

section \<open>Applying a template\<close>

lemma handleApplyTemplate_confirmed:
  "handleApplyTemplate True now tpl st =
     (let newObjs = map (\<lambda>(i, obj). template_object (now i) i obj) (enumerate 0 (objects tpl));
          st2 = st\<lparr>history := slice_last 20 (history st @ [textObjects st]), future := [],
                   textObjects := newObjs\<rparr>
      in if objects tpl = [] then st2 else st2\<lparr>selectedTextId := id_t (newObjs ! 0)\<rparr>)"
  by (cases "objects tpl")
     (simp_all add: handleApplyTemplate_def pushHistory_def deep_copy_def Let_def)

text \<open>
  Claim C10. Applying a template without layer definitions leaves the scene with no
  layer and the selection id as it was, so a non-empty selection then names no layer of
  the scene. Applying a template with at least one definition selects the first layer
  built.
\<close>

theorem empty_template_keeps_selection:
  "(objects tpl = [] \<longrightarrow>
      textObjects (handleApplyTemplate True now tpl st) = []
      \<and> selectedTextId (handleApplyTemplate True now tpl st) = selectedTextId st
      \<and> selectedTextId (handleApplyTemplate True now tpl st)
           \<notin> id_t ` set (textObjects (handleApplyTemplate True now tpl st)))
   \<and> (objects tpl \<noteq> [] \<longrightarrow>
      selectedTextId (handleApplyTemplate True now tpl st)
        = id_t (hd (textObjects (handleApplyTemplate True now tpl st)))
      \<and> selectedTextId (handleApplyTemplate True now tpl st)
        = js ''t_'' @ show_num (now 0) @ js ''_0'')"
proof (intro conjI impI)
  assume e: "objects tpl = []"
  then show "textObjects (handleApplyTemplate True now tpl st) = []"
    and "selectedTextId (handleApplyTemplate True now tpl st) = selectedTextId st"
    and "selectedTextId (handleApplyTemplate True now tpl st)
           \<notin> id_t ` set (textObjects (handleApplyTemplate True now tpl st))"
    by (simp_all add: handleApplyTemplate_confirmed)
next
  assume "objects tpl \<noteq> []"
  then obtain obj objs where o: "objects tpl = obj # objs" by (cases "objects tpl") auto
  then show "selectedTextId (handleApplyTemplate True now tpl st)
        = id_t (hd (textObjects (handleApplyTemplate True now tpl st)))"
    by (simp add: handleApplyTemplate_confirmed enumerate_simps)
  from o show "selectedTextId (handleApplyTemplate True now tpl st)
        = js ''t_'' @ show_num (now 0) @ js ''_0''"
    by (simp add: handleApplyTemplate_confirmed template_object_def show_num_digit)
qed

theorem empty_template_keeps_selection_witness:
  "objects (template_of []) = []
   \<and> textObjects (handleApplyTemplate True (\<lambda>i. 7) (template_of []) demo_scene) = []
   \<and> selectedTextId (handleApplyTemplate True (\<lambda>i. 7) (template_of []) demo_scene) = js ''t1''
   \<and> objects (template_of [styled_partial]) \<noteq> []
   \<and> selectedTextId (handleApplyTemplate True (\<lambda>i. 7) (template_of [styled_partial]) demo_scene)
       = js ''t_7_0''"
proof -
  have e: "objects (template_of []) = []" and n: "objects (template_of [styled_partial]) \<noteq> []"
    by (simp_all add: template_of_def)
  from empty_template_keeps_selection [of "template_of []" "\<lambda>i. 7" demo_scene, THEN conjunct1,
      rule_format, OF e]
  have "textObjects (handleApplyTemplate True (\<lambda>i. 7) (template_of []) demo_scene) = []"
    and "selectedTextId (handleApplyTemplate True (\<lambda>i. 7) (template_of []) demo_scene) = js ''t1''"
    by (simp_all add: demo_scene_def initial_state_def)
  moreover
  from empty_template_keeps_selection [of "template_of [styled_partial]" "\<lambda>i. 7" demo_scene,
      THEN conjunct2, rule_format, OF n, THEN conjunct2]
  have "selectedTextId (handleApplyTemplate True (\<lambda>i. 7) (template_of [styled_partial]) demo_scene)
       = js ''t_7_0''"
    by (simp add: show_num_digit)
  ultimately show ?thesis using e n by simp
qed

lemma num_from_or_num: "num_from p d (or_num p d)"
  by (cases p) (simp_all add: num_from_def)

lemma str_from_or_str: "str_from p d (or_str p d)"
  by (cases p) (simp_all add: str_from_def)

lemma built_from_template_object: "built_from now k obj (template_object now k obj)"
  unfolding built_from_def
  by (intro conjI)
     (simp_all add: template_object_def num_from_or_num str_from_or_str
        split: option.split)

text \<open>The decimal digits determine the number.\<close>

lemma show_num_value: "foldl (\<lambda>a d. 10 * a + (d - 48)) 0 (show_num n) = n"
proof (induction n rule: show_num.induct)
  case (1 n)
  show ?case
  proof (cases "n < 10")
    case True
    then show ?thesis by (simp add: show_num.simps)
  next
    case False
    with "1" have "foldl (\<lambda>a d. 10 * a + (d - 48)) 0 (show_num (n div 10)) = n div 10"
      by simp
    with False show ?thesis
      by (subst show_num.simps) simp
  qed
qed

lemma show_num_inj: "show_num m = show_num n \<Longrightarrow> m = n"
  by (metis show_num_value)

lemma show_num_digits: "d \<in> set (show_num n) \<Longrightarrow> 48 \<le> d \<and> d \<le> 57"
proof (induction n rule: show_num.induct)
  case (1 n)
  show ?case
  proof (cases "n < 10")
    case True
    with "1.prems" show ?thesis by (simp add: show_num.simps)
  next
    case False
    from "1.prems" have "d \<in> set (show_num (n div 10)) \<or> d = 48 + n mod 10"
      by (subst (asm) show_num.simps) (auto simp: False)
    with "1.IH" False show ?thesis by auto
  qed
qed

lemma template_id_inj:
  assumes "template_prefix a @ show_num i = template_prefix b @ show_num j"
  shows "i = j"
proof -
  have u: "95 \<notin> set (show_num n)" for n
    using show_num_digits [of 95 n] by auto
  from assms have "show_num a @ 95 # show_num i = show_num b @ 95 # show_num j"
    by (simp add: template_prefix_def)
  then have "show_num i = show_num j"
    using append_Cons_eq_iff [OF u u] by blast
  then show ?thesis by (rule show_num_inj)
qed

lemma template_ids:
  "map id_t (map (\<lambda>(i, obj). template_object (now i) i obj) (enumerate n objs))
     = map (\<lambda>i. template_prefix (now i) @ show_num i) [n..<n + length objs]"
proof (induction objs arbitrary: n)
  case Nil
  then show ?case by simp
next
  case (Cons obj objs)
  have "[n..<n + length (obj # objs)] = n # [Suc n..<Suc n + length objs]"
    using upt_conv_Cons [of n "Suc n + length objs"] by (simp del: upt_Suc)
  with Cons [of "Suc n"] show ?case
    by (simp add: template_object_def template_prefix_def)
qed

lemma template_ids_distinct:
  "distinct (map id_t (map (\<lambda>(i, obj). template_object (now i) i obj) (enumerate n objs)))"
  unfolding template_ids
  by (auto simp: distinct_map inj_on_def dest: template_id_inj)

lemma template_ids_prefix:
  assumes "t \<in> set (map (\<lambda>(i, obj). template_object (now i) i obj) (enumerate 0 objs))"
  shows "\<exists>k<length objs. take (length (template_prefix (now k))) (id_t t) = template_prefix (now k)"
proof -
  from assms
  have "id_t t \<in> set (map id_t (map (\<lambda>(i, obj). template_object (now i) i obj) (enumerate 0 objs)))"
    by (simp only: set_map) (rule imageI)
  then obtain k where "k < length objs" "id_t t = template_prefix (now k) @ show_num k"
    unfolding template_ids by auto
  then show ?thesis by auto
qed

lemma textObjects_handleApplyTemplate:
  "textObjects (handleApplyTemplate True now tpl st)
     = map (\<lambda>(i, obj). template_object (now i) i obj) (enumerate 0 (objects tpl))"
  by (simp add: handleApplyTemplate_confirmed Let_def)

text \<open>
  Claim C6, as amended. Applying a template after confirmation replaces the whole
  layer sequence by one layer for each definition of the template, in order, as a single
  recorded step. The layer at index \<open>k\<close> has the id \<^verbatim>\<open>t_<now>_<k>\<close>, where \<open>now\<close> is the
  clock reading when it is built; these ids are pairwise distinct and differ from the id
  of every previous layer that does not begin with \<^verbatim>\<open>t_<now>_\<close> for one of these readings. Font family, shadow, opacity 1, line
  height 1.2, unlocked, visible and centred are set on every layer, whatever the template
  supplies for them. Text, position, font size, colours, stroke width, highlight words,
  colour and scale, and rotation are the template's when it supplies them (a non-zero
  number, a non-empty string) and a default when it omits them. When the template has a
  definition, the first layer built is selected. A template of three definitions
  applied to any scene gives exactly three layers.
\<close>

theorem apply_template_spec:
  "length (textObjects (handleApplyTemplate True now tpl st)) = length (objects tpl)
   \<and> history (handleApplyTemplate True now tpl st)
       = slice_last 20 (history st @ [textObjects st])
   \<and> (\<forall>k<length (objects tpl).
         built_from (now k) k (objects tpl ! k)
           (textObjects (handleApplyTemplate True now tpl st) ! k))
   \<and> distinct (map id_t (textObjects (handleApplyTemplate True now tpl st)))
   \<and> (\<forall>old\<in>set (textObjects st).
         (\<forall>k<length (objects tpl).
            take (length (template_prefix (now k))) (id_t old) \<noteq> template_prefix (now k)) \<longrightarrow>
         id_t old \<notin> id_t ` set (textObjects (handleApplyTemplate True now tpl st)))
   \<and> (objects tpl \<noteq> [] \<longrightarrow>
         selectedTextId (handleApplyTemplate True now tpl st)
           = id_t (textObjects (handleApplyTemplate True now tpl st) ! 0))
   \<and> (length (objects tpl) = 3 \<longrightarrow>
         length (textObjects (handleApplyTemplate True now tpl st)) = 3)"
proof (intro conjI allI ballI impI)
  show len: "length (textObjects (handleApplyTemplate True now tpl st)) = length (objects tpl)"
    by (simp add: textObjects_handleApplyTemplate)
  then show "length (textObjects (handleApplyTemplate True now tpl st)) = 3"
    if "length (objects tpl) = 3" using that by simp
  show "history (handleApplyTemplate True now tpl st)
       = slice_last 20 (history st @ [textObjects st])"
    by (simp add: handleApplyTemplate_confirmed Let_def)
  show "distinct (map id_t (textObjects (handleApplyTemplate True now tpl st)))"
    by (simp only: textObjects_handleApplyTemplate template_ids_distinct)
next
  fix k
  assume "k < length (objects tpl)"
  then have "textObjects (handleApplyTemplate True now tpl st) ! k
      = template_object (now k) k (objects tpl ! k)"
    by (simp add: textObjects_handleApplyTemplate nth_enumerate_eq)
  then show "built_from (now k) k (objects tpl ! k)
      (textObjects (handleApplyTemplate True now tpl st) ! k)"
    by (simp add: built_from_template_object)
next
  fix old
  assume a: "\<forall>k<length (objects tpl).
            take (length (template_prefix (now k))) (id_t old) \<noteq> template_prefix (now k)"
  show "id_t old \<notin> id_t ` set (textObjects (handleApplyTemplate True now tpl st))"
  proof
    assume "id_t old \<in> id_t ` set (textObjects (handleApplyTemplate True now tpl st))"
    then obtain t where t: "t \<in> set (textObjects (handleApplyTemplate True now tpl st))"
      and e: "id_t old = id_t t" by auto
    from t template_ids_prefix [of t now "objects tpl"] e a show False
      by (simp only: textObjects_handleApplyTemplate) auto
  qed
next
  assume "objects tpl \<noteq> []"
  then show "selectedTextId (handleApplyTemplate True now tpl st)
           = id_t (textObjects (handleApplyTemplate True now tpl st) ! 0)"
    by (simp add: handleApplyTemplate_confirmed Let_def)
qed

theorem apply_template_spec_witness:
  "objects t_vs \<noteq> [] \<and> length (objects t_vs) = 3
   \<and> map id_t (textObjects demo_scene) = [js ''t1'']
   \<and> take (length (template_prefix 7)) (js ''t1'') \<noteq> template_prefix 7
   \<and> length (textObjects (handleApplyTemplate True (\<lambda>i. 7) t_vs demo_scene)) = 3
   \<and> js ''t1'' \<notin> id_t ` set (textObjects (handleApplyTemplate True (\<lambda>i. 7) t_vs demo_scene))
   \<and> selectedTextId (handleApplyTemplate True (\<lambda>i. 7) t_vs demo_scene)
       = id_t (textObjects (handleApplyTemplate True (\<lambda>i. 7) t_vs demo_scene) ! 0)
   \<and> built_from 7 1 (objects t_vs ! 1) (textObjects (handleApplyTemplate True (\<lambda>i. 7) t_vs demo_scene) ! 1)"
proof -
  note spec = apply_template_spec [of "\<lambda>i. 7" t_vs demo_scene]
  have n: "objects t_vs \<noteq> []" and l: "length (objects t_vs) = 3"
    by (simp_all add: t_vs_def)
  have ids: "map id_t (textObjects demo_scene) = [js ''t1'']"
    by (simp add: demo_scene_def initial_state_def newObj_def show_num_digit)
  have p: "take (length (template_prefix 7)) (js ''t1'') \<noteq> template_prefix 7"
    by (simp add: template_prefix_def show_num_digit)
  from ids obtain old where old: "textObjects demo_scene = [old]" "id_t old = js ''t1''"
    by auto
  from spec l have three: "length (textObjects (handleApplyTemplate True (\<lambda>i. 7) t_vs demo_scene)) = 3"
    by simp
  from spec old p
  have fresh: "js ''t1'' \<notin> id_t ` set (textObjects (handleApplyTemplate True (\<lambda>i. 7) t_vs demo_scene))"
    by (metis list.set_intros(1))
  from spec n have sel: "selectedTextId (handleApplyTemplate True (\<lambda>i. 7) t_vs demo_scene)
       = id_t (textObjects (handleApplyTemplate True (\<lambda>i. 7) t_vs demo_scene) ! 0)"
    by blast
  have "(1::nat) < length (objects t_vs)" using l by simp
  with spec have "built_from 7 1 (objects t_vs ! 1)
      (textObjects (handleApplyTemplate True (\<lambda>i. 7) t_vs demo_scene) ! 1)"
    by blast
  with n l ids p three fresh sel show ?thesis by blast
qed

text \<open>
  The claim as stated fails: a definition that supplies the font family, the opacity
  and the locked flag gets the defaults for all three.
\<close>

theorem template_overrides_supplied_counterexample:
  "map (\<lambda>obj. (p_fontFamily obj, p_opacity obj, p_isLocked obj)) (objects (template_of [styled_partial]))
     = [(Some (js ''Oswald''), Some (1 / 2), Some True)]
   \<and> map (\<lambda>t. (fontFamily t, opacity t, isLocked t))
        (textObjects (handleApplyTemplate True (\<lambda>i. 7) (template_of [styled_partial]) demo_scene))
     = [(js ''Cairo'', 1, Some False)]"
  by (simp add: template_of_def styled_partial_def empty_partial_def handleApplyTemplate_def
        template_object_def Let_def)

section \<open>Highlighted words in the layout\<close>

lemma wordMetrics_eq:
  "wordMetrics measureText obj words =
     map (\<lambda>w. \<lparr>word = w,
               width = measureText (drawn_size obj w) (fontFamily obj) (w @ js '' ''),
               size_m = drawn_size obj w,
               isHigh = (cleanW w \<in> set (highlightWords obj))\<rparr>) words"
  by (simp add: wordMetrics_def drawn_size_def Let_def)

lemma length_draw_words: "length (draw_words obj lineY drawX ms) = length ms"
  by (induction ms arbitrary: drawX) simp_all

lemma draw_words_nth:
  "k < length ms \<Longrightarrow>
     call_text (draw_words obj lineY drawX ms ! k) = word (ms ! k)
     \<and> call_size (draw_words obj lineY drawX ms ! k) = size_m (ms ! k)
     \<and> call_x (draw_words obj lineY drawX ms ! k) = drawX + sum_list (map width (take k ms))"
proof (induction ms arbitrary: drawX k)
  case Nil
  then show ?case by simp
next
  case (Cons m ms)
  show ?case
  proof (cases k)
    case 0
    then show ?thesis by simp
  next
    case (Suc j)
    with Cons.prems have "j < length ms" by simp
    from Cons.IH [OF this, of "drawX + width m"] Suc show ?thesis
      by (simp add: add.assoc)
  qed
qed

lemma draw_words_advance:
  assumes "Suc k < length ms"
  shows "call_x (draw_words obj lineY drawX ms ! Suc k)
           = call_x (draw_words obj lineY drawX ms ! k) + width (ms ! k)"
proof -
  from assms have k: "k < length ms" by simp
  have "take (Suc k) ms = take k ms @ [ms ! k]"
    using k by (rule take_Suc_conv_app_nth)
  with draw_words_nth [OF assms, of obj lineY drawX] draw_words_nth [OF k, of obj lineY drawX]
  show ?thesis by simp
qed

text \<open>
  Claim C9. In the layout of a line, the words are those of the line split at spaces
  (in reverse order when the line has an Arabic character). Each word is measured and
  drawn at the font size times the highlight scale when its membership test against the
  highlight words succeeds, and at the font size otherwise; the metrics record, for each
  word, the width measured at that size (of the word followed by one space), and the
  next word is drawn that width further along. For HELLO WORLD with highlight word
  WORLD, scale 1.5 and font size 40, the width recorded and advanced for WORLD is the
  one measured at size 60, and HELLO is measured at size 40.
\<close>

theorem highlight_layout_spec:
  "words = (if isArabic line then rev (split_on 32 line) else split_on 32 line) \<longrightarrow>
     length (draw_line measureText obj lineY line) = length words
     \<and> (\<forall>k<length words.
           call_text (draw_line measureText obj lineY line ! k) = words ! k
           \<and> call_size (draw_line measureText obj lineY line ! k) = drawn_size obj (words ! k)
           \<and> size_m (wordMetrics measureText obj words ! k) = drawn_size obj (words ! k)
           \<and> width (wordMetrics measureText obj words ! k)
               = measureText (drawn_size obj (words ! k)) (fontFamily obj) (words ! k @ js '' '')
           \<and> (Suc k < length words \<longrightarrow>
                call_x (draw_line measureText obj lineY line ! Suc k)
                  = call_x (draw_line measureText obj lineY line ! k)
                    + measureText (drawn_size obj (words ! k)) (fontFamily obj)
                        (words ! k @ js '' '')))
     \<and> (drawn_size obj w
           = (if cleanW w \<in> set (highlightWords obj) then fontSize obj * highlightScale obj
              else fontSize obj))
     \<and> (text_t obj = js ''HELLO WORLD'' \<and> highlightWords obj = [js ''WORLD'']
          \<and> highlightScale obj = 3 / 2 \<and> fontSize obj = 40 \<longrightarrow>
          wordMetrics measureText obj (split_on 32 (text_t obj)) =
            [\<lparr>word = js ''HELLO'', width = measureText 40 (fontFamily obj) (js ''HELLO ''),
              size_m = 40, isHigh = False\<rparr>,
             \<lparr>word = js ''WORLD'', width = measureText 60 (fontFamily obj) (js ''WORLD ''),
              size_m = 60, isHigh = True\<rparr>])"
proof (intro conjI allI impI)
  assume w: "words = (if isArabic line then rev (split_on 32 line) else split_on 32 line)"
  let ?ms = "wordMetrics measureText obj words"
  let ?x0 = "line_start obj (foldl (\<lambda>acc m. acc + width m) 0 ?ms)"
  have dl: "draw_line measureText obj lineY line = draw_words obj lineY ?x0 ?ms"
    by (simp add: draw_line_def w Let_def)
  have lm: "length ?ms = length words" by (simp add: wordMetrics_def)
  show "length (draw_line measureText obj lineY line) = length words"
    by (simp add: dl length_draw_words lm)
  fix k
  assume k: "k < length words"
  then have km: "k < length ?ms" by (simp add: lm)
  have mk: "?ms ! k = \<lparr>word = words ! k,
               width = measureText (drawn_size obj (words ! k)) (fontFamily obj) (words ! k @ js '' ''),
               size_m = drawn_size obj (words ! k),
               isHigh = (cleanW (words ! k) \<in> set (highlightWords obj))\<rparr>"
    using k by (simp only: wordMetrics_eq nth_map)
  show "call_text (draw_line measureText obj lineY line ! k) = words ! k"
    and "call_size (draw_line measureText obj lineY line ! k) = drawn_size obj (words ! k)"
    using draw_words_nth [OF km, of obj lineY ?x0] by (simp_all add: dl mk)
  show "size_m (?ms ! k) = drawn_size obj (words ! k)"
    and "width (?ms ! k)
           = measureText (drawn_size obj (words ! k)) (fontFamily obj) (words ! k @ js '' '')"
    by (simp_all add: mk)
  assume "Suc k < length words"
  then have "Suc k < length ?ms" by (simp add: lm)
  from draw_words_advance [OF this, of obj lineY ?x0]
  show "call_x (draw_line measureText obj lineY line ! Suc k)
          = call_x (draw_line measureText obj lineY line ! k)
            + measureText (drawn_size obj (words ! k)) (fontFamily obj) (words ! k @ js '' '')"
    by (simp add: dl mk)
next
  show "drawn_size obj w
           = (if cleanW w \<in> set (highlightWords obj) then fontSize obj * highlightScale obj
              else fontSize obj)"
    by (simp add: drawn_size_def)
next
  assume a: "text_t obj = js ''HELLO WORLD'' \<and> highlightWords obj = [js ''WORLD'']
          \<and> highlightScale obj = 3 / 2 \<and> fontSize obj = 40"
  have s: "split_on 32 (js ''HELLO WORLD'') = [js ''HELLO'', js ''WORLD'']" by simp
  have c: "cleanW (js ''HELLO'') = js ''HELLO''" "cleanW (js ''WORLD'') = js ''WORLD''"
    by (simp_all add: cleanW_def trim_def is_white_def)
  have ne: "js ''HELLO'' \<noteq> js ''WORLD''" by simp
  show "wordMetrics measureText obj (split_on 32 (text_t obj)) =
            [\<lparr>word = js ''HELLO'', width = measureText 40 (fontFamily obj) (js ''HELLO ''),
              size_m = 40, isHigh = False\<rparr>,
             \<lparr>word = js ''WORLD'', width = measureText 60 (fontFamily obj) (js ''WORLD ''),
              size_m = 60, isHigh = True\<rparr>]"
    using a ne by (simp only: s wordMetrics_def list.map Let_def c) simp
qed

theorem highlight_layout_spec_witness:
  "text_t hello_world = js ''HELLO WORLD'' \<and> highlightWords hello_world = [js ''WORLD'']
   \<and> highlightScale hello_world = 3 / 2 \<and> fontSize hello_world = 40
   \<and> map width (wordMetrics fixed_pitch hello_world (split_on 32 (text_t hello_world)))
       = [fixed_pitch 40 (js ''Cairo'') (js ''HELLO ''), fixed_pitch 60 (js ''Cairo'') (js ''WORLD '')]
   \<and> map (\<lambda>c. (call_text c, call_size c, call_x c, call_y c)) (draw_text fixed_pitch hello_world)
       = [(js ''HELLO'', 40, 460, 360), (js ''WORLD'', 60, 604, 360)]
   \<and> (604::real) - 460 = fixed_pitch 40 (js ''Cairo'') (js ''HELLO '')"
proof -
  have a: "text_t hello_world = js ''HELLO WORLD'' \<and> highlightWords hello_world = [js ''WORLD'']
          \<and> highlightScale hello_world = 3 / 2 \<and> fontSize hello_world = 40"
    by (simp add: hello_world_def newObj_def)
  note m = highlight_layout_spec [where obj = hello_world and measureText = fixed_pitch
      and line = "[]" and words = "[[]]", THEN mp, THEN conjunct2, THEN conjunct2, THEN conjunct2,
      THEN mp, OF _ a]
  have f: "fontFamily hello_world = js ''Cairo''" by (simp add: hello_world_def newObj_def)
  have w: "map width (wordMetrics fixed_pitch hello_world (split_on 32 (text_t hello_world)))
       = [fixed_pitch 40 (js ''Cairo'') (js ''HELLO ''), fixed_pitch 60 (js ''Cairo'') (js ''WORLD '')]"
    by (subst m) (simp_all add: isArabic_def f)
  have sp: "split_on 10 (js ''HELLO WORLD'') = [js ''HELLO WORLD'']" by simp
  have ar: "\<not> isArabic (js ''HELLO WORLD'')" by (simp add: isArabic_def)
  have d: "map (\<lambda>c. (call_text c, call_size c, call_x c, call_y c)) (draw_text fixed_pitch hello_world)
       = [(js ''HELLO'', 40, 460, 360), (js ''WORLD'', 60, 604, 360)]"
    using a m
    apply (simp only: draw_text_def draw_line_def Let_def sp ar if_False enumerate_simps list.map
        concat.simps append_Nil2 prod.case)
    apply (simp add: isArabic_def f fixed_pitch_def line_start_def hello_world_def newObj_def)
    done
  have "(604::real) - 460 = fixed_pitch 40 (js ''Cairo'') (js ''HELLO '')"
    by (simp add: fixed_pitch_def)
  with a w d show ?thesis by simp
qed

end
